(* ===== verification/Prelude.thy ===== *)
theory Prelude
  imports Main "HOL-Library.Sublist"
begin

text \<open>
  Shared vocabulary of the development: the single error kind of the remote data
  source, the result type of a fetch, the outcome of an asynchronous handler (which,
  unlike a sum, keeps the state reached when the handler's promise rejected, because
  React state setters called before the failing \<open>await\<close> have already taken effect),
  the sequencing combinator that models \<open>await\<close> in an \<open>async\<close> function, and
  JavaScript truthiness of the nullable values the code tests with \<open>if (x)\<close>.
\<close>

named_theorems outcome_simps "sequencing laws of handler outcomes"
named_theorems js_simps "JavaScript truthiness of nullable values"

datatype fetch_error = FetchError

type_synonym 'a fetch = "fetch_error + 'a"

datatype 's outcome = Done 's | Raised fetch_error 's

primrec outcome_state :: "'s outcome \<Rightarrow> 's" where
  "outcome_state (Done s) = s"
| "outcome_state (Raised e s) = s"

primrec then_do :: "'s outcome \<Rightarrow> ('s \<Rightarrow> 's outcome) \<Rightarrow> 's outcome" where
  "then_do (Done s) k = k s"
| "then_do (Raised e s) k = Raised e s"

primrec is_done :: "'s outcome \<Rightarrow> bool" where
  "is_done (Done s) = True"
| "is_done (Raised e s) = False"

text \<open>
  \<open>settle r s\<close>: the caller's \<open>await\<close> of a fetch with result \<open>r\<close>, after the callee
  has brought the state to \<open>s\<close>: a rejected fetch raises, an answered one continues.
\<close>

definition settle :: "'a fetch \<Rightarrow> 's \<Rightarrow> 's outcome" where
  "settle r s = (case r of Inl e \<Rightarrow> Raised e s | Inr v \<Rightarrow> Done s)"

text \<open>
  \<open>if (x)\<close> on a nullable string is false for \<open>null\<close> and for \<open>""\<close>; on a nullable
  number it is false for \<open>null\<close> and for \<open>0\<close>.
\<close>

definition js_truthy_str :: "string option \<Rightarrow> bool" where
  "js_truthy_str x = (case x of None \<Rightarrow> False | Some v \<Rightarrow> v \<noteq> [])"

definition js_truthy_nat :: "nat option \<Rightarrow> bool" where
  "js_truthy_nat x = (case x of None \<Rightarrow> False | Some n \<Rightarrow> n \<noteq> 0)"

lemma then_do_Done [outcome_simps, simp]: "then_do m Done = m"
  by (cases m) simp_all

lemma then_do_assoc [outcome_simps]:
  "then_do (then_do m f) g = then_do m (\<lambda>s. then_do (f s) g)"
  by (cases m) simp_all

lemma then_do_eq_Done [outcome_simps]:
  "then_do m k = Done s' \<longleftrightarrow> (\<exists>s. m = Done s \<and> k s = Done s')"
  by (cases m) simp_all

lemma settle_simps [outcome_simps, simp]:
  "settle (Inl e) s = Raised e s"
  "settle (Inr v) s = Done s"
  by (simp_all add: settle_def)

lemma js_truthy_str_simps [js_simps, simp]:
  "js_truthy_str None = False"
  "js_truthy_str (Some v) = (v \<noteq> [])"
  by (simp_all add: js_truthy_str_def)

lemma js_truthy_nat_simps [js_simps, simp]:
  "js_truthy_nat None = False"
  "js_truthy_nat (Some n) = (n \<noteq> 0)"
  by (simp_all add: js_truthy_nat_def)

lemma js_truthy_nat_Some: "js_truthy_nat x \<Longrightarrow> \<exists>n. x = Some n \<and> 0 < n"
  by (cases x) auto

text \<open>Prefix order on lists, used for the never-shrinking accumulation.\<close>

lemma prefix_append_right [intro]: "prefix xs ys \<Longrightarrow> prefix xs (ys @ zs)"
  by (metis prefix_append prefix_order.trans)

text \<open>A list of pages split into the accumulated ones and the latest.\<close>

lemma concat_map_butlast_last:
  "xs \<noteq> [] \<Longrightarrow> concat (map f (butlast xs)) @ f (last xs) = concat (map f xs)"
  by (induction xs) auto

end
