(* ===== verification/Source.thy ===== *)
theory Source
  imports Prelude
begin

text \<open>
  The data model (\<open>utils/types\<close>, \<open>utils/constants\<close>) and the remote data source the
  orchestrator consumes. These files are not part of the repository's \<open>src/\<close> tree, so
  they are modelled from the specification's contract (spec sections 3 and 6): a source
  is three fallible queries, the page query takes a cursor (\<open>None\<close> for the first
  page) and answers a page with the next cursor. Cursors are page numbers, as in the
  mock API the hooks call. A mock source over a fixed transaction list with a page
  size is given as a concrete instance; \<open>page_chain\<close> follows the cursor chain the
  way repeated clicks on "View More" do, one fetch per unit of fuel.
\<close>

record employee =
  emp_id :: string
  firstName :: string
  lastName :: string

definition EMPTY_EMPLOYEE :: employee where
  "EMPTY_EMPLOYEE = \<lparr>emp_id = [], firstName = ''All'', lastName = ''Employees''\<rparr>"

record 't page =
  page_data :: "'t list"
  nextPage :: "nat option"

record 't source =
  listEmployees :: "employee list fetch"
  fetchTransactionsPage :: "nat option \<Rightarrow> 't page fetch"
  fetchTransactionsForEmployee :: "string \<Rightarrow> 't list fetch"

subsection \<open>Following the cursor chain\<close>

text \<open>
  \<open>page_chain src c n\<close>: the \<open>n\<close> pages obtained by fetching at cursor \<open>c\<close> and then
  at each answered cursor, provided every cursor is truthy (the guard of
  \<open>loadMoreTransactions\<close>) and every fetch succeeds; \<open>None\<close> otherwise.
\<close>

fun page_chain :: "'t source \<Rightarrow> nat option \<Rightarrow> nat \<Rightarrow> 't page list option" where
  "page_chain src c 0 = Some []"
| "page_chain src c (Suc n) =
     (if js_truthy_nat c then
        (case fetchTransactionsPage src c of
           Inl e \<Rightarrow> None
         | Inr p \<Rightarrow> map_option (Cons p) (page_chain src (nextPage p) n))
      else None)"

subsection \<open>The mock source\<close>

definition mock_page :: "nat \<Rightarrow> 't list \<Rightarrow> nat \<Rightarrow> 't page" where
  "mock_page k xs c =
     \<lparr>page_data = take k (drop (c * k) xs),
      nextPage = (if (c + 1) * k < length xs then Some (c + 1) else None)\<rparr>"

definition mock_source :: "employee list \<Rightarrow> ('t \<Rightarrow> string) \<Rightarrow> nat \<Rightarrow> 't list \<Rightarrow> 't source" where
  "mock_source es owner k xs =
     \<lparr>listEmployees = Inr es,
      fetchTransactionsPage =
        (\<lambda>c. Inr (mock_page k xs (case c of None \<Rightarrow> 0 | Some n \<Rightarrow> n))),
      fetchTransactionsForEmployee = (\<lambda>i. Inr (filter (\<lambda>t. owner t = i) xs))\<rparr>"

definition mock_page_count :: "nat \<Rightarrow> 't list \<Rightarrow> nat" where
  "mock_page_count k xs = max 1 ((length xs + k - 1) div k)"

subsection \<open>The scenario source of the specification\<close>

text \<open>
  The source of the specification's scenarios (section 8): one employee, Ann Lee with
  id \<open>1\<close>; a first page \<open>[t1, t2]\<close> pointing to page 1, which holds \<open>[t3]\<close> and is the
  last; employee \<open>1\<close> owns \<open>[t4]\<close>. Transactions are the numbers 1 to 4.
\<close>

definition ann_lee :: employee where
  "ann_lee = \<lparr>emp_id = ''1'', firstName = ''Ann'', lastName = ''Lee''\<rparr>"

definition scenario_source :: "nat source" where
  "scenario_source =
     \<lparr>listEmployees = Inr [ann_lee],
      fetchTransactionsPage = (\<lambda>c.
        case c of
          None \<Rightarrow> Inr \<lparr>page_data = [1, 2], nextPage = Some 1\<rparr>
        | Some n \<Rightarrow> if n = 1 then Inr \<lparr>page_data = [3], nextPage = None\<rparr> else Inl FetchError),
      fetchTransactionsForEmployee = (\<lambda>i. if i = ''1'' then Inr [4] else Inr [])\<rparr>"

text \<open>
  Variants of the scenario source for the error paths: the second page fails, every
  page fails, or the first page's next cursor is the page number 0.
\<close>

definition flaky_source :: "nat source" where
  "flaky_source = scenario_source\<lparr>fetchTransactionsPage := (\<lambda>c.
     case c of None \<Rightarrow> Inr \<lparr>page_data = [1, 2], nextPage = Some 1\<rparr> | Some n \<Rightarrow> Inl FetchError)\<rparr>"

definition no_page_source :: "nat source" where
  "no_page_source = scenario_source\<lparr>fetchTransactionsPage := (\<lambda>c. Inl FetchError)\<rparr>"

definition zero_cursor_source :: "nat source" where
  "zero_cursor_source = scenario_source\<lparr>fetchTransactionsPage := (\<lambda>c.
     Inr \<lparr>page_data = [1, 2], nextPage = Some 0\<rparr>)\<rparr>"

subsection \<open>The mock source answers every page once\<close>

lemma mock_pages_concat:
  "concat (map (\<lambda>i. page_data (mock_page k xs i)) [0..<m]) = take (m * k) xs"
proof (induction m)
  case 0 then show ?case by simp
next
  case (Suc m)
  have "take (m * k) xs @ take k (drop (m * k) xs) = take (m * k + k) xs"
    by (simp add: take_add)
  with Suc show ?case by (simp add: mock_page_def add.commute)
qed

lemma mock_page_next:
  "nextPage (mock_page k xs c) = (if (c + 1) * k < length xs then Some (c + 1) else None)"
  by (simp add: mock_page_def)

lemma mock_source_page [simp]:
  "fetchTransactionsPage (mock_source es owner k xs) c = Inr (mock_page k xs (case c of None \<Rightarrow> 0 | Some n \<Rightarrow> n))"
  by (simp add: mock_source_def)

lemma mock_source_employees [simp]: "listEmployees (mock_source es owner k xs) = Inr es"
  by (simp add: mock_source_def)

lemma mock_page_chain:
  "0 < c \<Longrightarrow> (\<forall>i<m. (c + i) * k < length xs) \<Longrightarrow>
   page_chain (mock_source es owner k xs) (Some c) m = Some (map (mock_page k xs) [c..<c + m])"
proof (induction m arbitrary: c)
  case 0 then show ?case by simp
next
  case (Suc m)
  let ?src = "mock_source es owner k xs"
  have IH: "page_chain ?src (Some (Suc c)) m = Some (map (mock_page k xs) [Suc c..<Suc c + m])"
    using Suc.prems by (intro Suc.IH) (auto simp: add.commute add.left_commute)
  have rest: "page_chain ?src (nextPage (mock_page k xs c)) m = Some (map (mock_page k xs) [Suc c..<Suc c + m])"
  proof (cases m)
    case 0 then show ?thesis by simp
  next
    case (Suc m')
    with Suc.prems(2) have "(c + 1) * k < length xs" by auto
    with IH show ?thesis by (simp add: mock_page_next)
  qed
  have "[c..<c + Suc m] = c # [Suc c..<Suc c + m]" by (simp add: upt_conv_Cons)
  with Suc.prems(1) rest show ?case by simp
qed


lemma mock_count_cover: "0 < k \<Longrightarrow> length xs \<le> mock_page_count k xs * k"
proof -
  assume k: "0 < k"
  have "length xs \<le> ((length xs + k - 1) div k) * k"
    using k dividend_less_div_times [of k "length xs + k - 1"] by linarith
  also have "\<dots> \<le> mock_page_count k xs * k"
    by (simp add: mock_page_count_def)
  finally show ?thesis .
qed

lemma mock_count_tight:
  "0 < k \<Longrightarrow> i + 1 < mock_page_count k xs \<Longrightarrow> (i + 1) * k < length xs"
proof -
  assume k: "0 < k" and i: "i + 1 < mock_page_count k xs"
  then have "i + 2 \<le> (length xs + k - 1) div k" by (simp add: mock_page_count_def)
  then have "(i + 2) * k \<le> ((length xs + k - 1) div k) * k" by (rule mult_le_mono1)
  also have "\<dots> \<le> length xs + k - 1" by (rule div_times_less_eq_dividend)
  finally show ?thesis using k by simp
qed

lemma mock_count_pos: "0 < mock_page_count k xs"
  by (simp add: mock_page_count_def)

text \<open>
  With a positive page size, fetching the mock's first page and then following
  its cursors for one fetch less than the page count succeeds, ends on a page with no
  next cursor, and the pages' items concatenate to exactly the transaction list: no
  item is duplicated or dropped, and the cursor chain terminates.
\<close>

lemma mock_all_pages:
  assumes k: "0 < k"
  shows "\<exists>ps. page_chain (mock_source es owner k xs) (nextPage (mock_page k xs 0))
                 (mock_page_count k xs - 1) = Some ps
           \<and> concat (map page_data (mock_page k xs 0 # ps)) = xs
           \<and> nextPage (last (mock_page k xs 0 # ps)) = None"
proof -
  let ?N = "mock_page_count k xs"
  let ?ps = "map (mock_page k xs) [1..<?N]"
  have N: "0 < ?N" by (rule mock_count_pos)
  have all: "mock_page k xs 0 # ?ps = map (mock_page k xs) [0..<?N]"
    using N by (simp add: upt_conv_Cons)
  have chain: "page_chain (mock_source es owner k xs) (nextPage (mock_page k xs 0)) (?N - 1) = Some ?ps"
  proof (cases "?N = 1")
    case True then show ?thesis by simp
  next
    case False
    with N have "0 + 1 < ?N" by simp
    then have "1 * k < length xs" using mock_count_tight [OF k, of 0] by simp
    then have nxt: "nextPage (mock_page k xs 0) = Some 1" by (simp add: mock_page_next)
    have "\<forall>i<?N - 1. (1 + i) * k < length xs"
    proof (intro allI impI)
      fix i assume "i < ?N - 1"
      then have "i + 1 < ?N" by simp
      then show "(1 + i) * k < length xs" using mock_count_tight [OF k, of i] by simp
    qed
    then have "page_chain (mock_source es owner k xs) (Some 1) (?N - 1) = Some (map (mock_page k xs) [1..<1 + (?N - 1)])"
      by (intro mock_page_chain) simp_all
    with N nxt show ?thesis by simp
  qed
  have "concat (map page_data (map (mock_page k xs) [0..<?N])) = take (?N * k) xs"
    using mock_pages_concat [of k xs ?N] by (simp add: comp_def)
  also have "\<dots> = xs" using mock_count_cover [OF k, of xs] by simp
  finally have cat: "concat (map page_data (mock_page k xs 0 # ?ps)) = xs" by (simp only: all)
  have "last (mock_page k xs 0 # ?ps) = mock_page k xs (?N - 1)"
    using N by (simp only: all) (simp add: last_map)
  moreover have "\<not> (?N - 1 + 1) * k < length xs" using N mock_count_cover [OF k, of xs] by simp
  ultimately have lst: "nextPage (last (mock_page k xs 0 # ?ps)) = None"
    by (simp add: mock_page_next)
  from chain cat lst show ?thesis by blast
qed

end
