(* ===== verification/Hooks.thy ===== *)
theory Hooks
  imports Source
begin

text \<open>
  The three data hooks \<open>useEmployees\<close>, \<open>usePaginatedTransactions\<close> and
  \<open>useTransactionsByEmployee\<close> (in \<open>hooks/\<close>, outside \<open>src/\<close>, so modelled from the
  specification). Each keeps a \<open>data\<close> value, \<open>null\<close> until its first successful
  fetch, and a \<open>loading\<close> flag. Its fetch function sets \<open>loading\<close>, issues the request
  (\<open>hook_start\<close>), and when the answer arrives stores it and clears \<open>loading\<close>
  (\<open>hook_resolve\<close>); a failed request leaves \<open>data\<close> as it was, clears \<open>loading\<close> and
  rejects the promise the caller awaits. \<open>usePaginatedTransactions\<close> replaces its page
  (it does not accumulate) and requests the page after the one it holds, or the first
  page when it holds none (\<open>page_cursor\<close>).
\<close>

record 'a hook =
  hook_data :: "'a option"
  hook_loading :: bool

definition hook_init :: "'a hook" where
  "hook_init = \<lparr>hook_data = None, hook_loading = False\<rparr>"

definition hook_start :: "'a hook \<Rightarrow> 'a hook" where
  "hook_start h = h\<lparr>hook_loading := True\<rparr>"

definition hook_resolve :: "'a fetch \<Rightarrow> 'a hook \<Rightarrow> 'a hook" where
  "hook_resolve r h =
     (case r of
        Inl e \<Rightarrow> h\<lparr>hook_loading := False\<rparr>
      | Inr v \<Rightarrow> h\<lparr>hook_data := Some v, hook_loading := False\<rparr>)"

definition hook_fetch :: "'a fetch \<Rightarrow> 'a hook \<Rightarrow> 'a hook" where
  "hook_fetch r h = hook_resolve r (hook_start h)"

definition page_cursor :: "'t page option \<Rightarrow> nat option" where
  "page_cursor p = (case p of None \<Rightarrow> None | Some pg \<Rightarrow> nextPage pg)"

lemma hook_fetch_simps [simp]:
  "hook_fetch (Inl e) h = h\<lparr>hook_loading := False\<rparr>"
  "hook_fetch (Inr v) h = h\<lparr>hook_data := Some v, hook_loading := False\<rparr>"
  by (simp_all add: hook_fetch_def hook_resolve_def hook_start_def)

lemma hook_resolve_simps [simp]:
  "hook_resolve (Inl e) h = h\<lparr>hook_loading := False\<rparr>"
  "hook_resolve (Inr v) h = h\<lparr>hook_data := Some v, hook_loading := False\<rparr>"
  by (simp_all add: hook_resolve_def)

lemma hook_start_simps [simp]:
  "hook_data (hook_start h) = hook_data h"
  "hook_loading (hook_start h) = True"
  by (simp_all add: hook_start_def)

lemma hook_init_simps [simp]:
  "hook_data hook_init = None"
  "hook_loading hook_init = False"
  by (simp_all add: hook_init_def)

lemma page_cursor_simps [simp]:
  "page_cursor None = None"
  "page_cursor (Some p) = nextPage p"
  by (simp_all add: page_cursor_def)

lemma hook_resolve_start [simp]: "hook_resolve r (hook_start h) = hook_resolve r h"
  by (cases r) (simp_all add: hook_resolve_def hook_start_def)

lemma hook_fetch_loading [simp]: "hook_loading (hook_fetch r h) = False"
  by (cases r) simp_all

end
