(* ===== verification/App.thy ===== *)
theory App
  imports Hooks
begin

text \<open>
  The root component \<open>App\<close> of \<open>src/App.tsx\<close>: the view-model orchestrator. Its state
  is the three hooks' state and its own three \<open>useState\<close> cells (\<open>isLoading\<close>,
  \<open>employeeId\<close>, \<open>allTransactions\<close>). The derived values of the render (the
  \<open>useMemo\<close> list, \<open>shouldShowViewMore\<close>, the props passed to \<open>InputSelect\<close> and to the
  button) are functions of the state. Each handler is run to completion here, as the
  specification assumes (one user action at a time); the interleaved semantics is in
  theory \<open>Async\<close>. A handler reads the values of the render it was created in (its
  closure, the argument \<open>snap\<close> where it differs from the current state) and writes
  the current state, in the order of its statements; an \<open>await\<close> whose fetch rejects
  ends the handler with \<open>Raised\<close>, keeping what was already written.
\<close>

record 't app_state =
  employees_hook :: "employee list hook"
  paginated_hook :: "'t page hook"
  by_employee_hook :: "'t list hook"
  isLoading :: bool
  employeeId :: "string option"
  allTransactions :: "'t list"

abbreviation employees :: "'t app_state \<Rightarrow> employee list option" where
  "employees s \<equiv> hook_data (employees_hook s)"

abbreviation employeesLoading :: "'t app_state \<Rightarrow> bool" where
  "employeesLoading s \<equiv> hook_loading (employees_hook s)"

abbreviation paginatedTransactions :: "'t app_state \<Rightarrow> 't page option" where
  "paginatedTransactions s \<equiv> hook_data (paginated_hook s)"

abbreviation transactionsLoading :: "'t app_state \<Rightarrow> bool" where
  "transactionsLoading s \<equiv> hook_loading (paginated_hook s)"

abbreviation transactionsByEmployee :: "'t app_state \<Rightarrow> 't list option" where
  "transactionsByEmployee s \<equiv> hook_data (by_employee_hook s)"

abbreviation transactionsByEmployeeLoading :: "'t app_state \<Rightarrow> bool" where
  "transactionsByEmployeeLoading s \<equiv> hook_loading (by_employee_hook s)"

definition app_init :: "'t app_state" where
  "app_init =
     \<lparr>employees_hook = hook_init, paginated_hook = hook_init, by_employee_hook = hook_init,
      isLoading = False, employeeId = None, allTransactions = []\<rparr>"

subsection \<open>The derived view (render)\<close>

definition merged :: "'t app_state \<Rightarrow> 't list" where
  "merged s = allTransactions s @
     (case paginatedTransactions s of None \<Rightarrow> [] | Some p \<Rightarrow> page_data p)"

definition transactions :: "'t app_state \<Rightarrow> 't list option" where
  "transactions s =
     (if js_truthy_str (employeeId s) then transactionsByEmployee s else Some (merged s))"

definition shouldShowViewMore :: "'t app_state \<Rightarrow> bool" where
  "shouldShowViewMore s =
     (\<not> js_truthy_str (employeeId s) \<and> page_cursor (paginatedTransactions s) \<noteq> None)"

definition select_items :: "'t app_state \<Rightarrow> employee list" where
  "select_items s = (case employees s of None \<Rightarrow> [] | Some es \<Rightarrow> EMPTY_EMPLOYEE # es)"

definition select_isLoading :: "'t app_state \<Rightarrow> bool" where
  "select_isLoading s = (isLoading s \<or> transactionsByEmployeeLoading s)"

definition loadingLabel :: "'t app_state \<Rightarrow> string" where
  "loadingLabel s =
     (if employeesLoading s \<and> employees s = None then ''Loading employees...'' else [])"

definition viewMore_disabled :: "'t app_state \<Rightarrow> bool" where
  "viewMore_disabled s =
     (transactionsLoading s \<or> isLoading s \<or> page_cursor (paginatedTransactions s) = None)"

definition viewMore_label :: "'t app_state \<Rightarrow> string" where
  "viewMore_label s =
     (if transactionsLoading s \<or> isLoading s then ''Loading...'' else ''View More'')"

subsection \<open>Awaiting the hooks' fetch functions\<close>

definition fetchEmployees :: "'t source \<Rightarrow> 't app_state \<Rightarrow> 't app_state outcome" where
  "fetchEmployees src s =
     settle (listEmployees src)
       (s\<lparr>employees_hook := hook_fetch (listEmployees src) (employees_hook s)\<rparr>)"

definition fetchPaginatedTransactions ::
  "'t source \<Rightarrow> nat option \<Rightarrow> 't app_state \<Rightarrow> 't app_state outcome" where
  "fetchPaginatedTransactions src c s =
     settle (fetchTransactionsPage src c)
       (s\<lparr>paginated_hook := hook_fetch (fetchTransactionsPage src c) (paginated_hook s)\<rparr>)"

definition fetchTransactionsByEmployee ::
  "'t source \<Rightarrow> string \<Rightarrow> 't app_state \<Rightarrow> 't app_state outcome" where
  "fetchTransactionsByEmployee src i s =
     settle (fetchTransactionsForEmployee src i)
       (s\<lparr>by_employee_hook :=
            hook_fetch (fetchTransactionsForEmployee src i) (by_employee_hook s)\<rparr>)"

subsection \<open>The handlers\<close>

definition loadAllTransactions ::
  "'t source \<Rightarrow> 't app_state \<Rightarrow> 't app_state \<Rightarrow> 't app_state outcome" where
  "loadAllTransactions src snap s =
     (if employees snap = None \<and> \<not> employeesLoading snap then
        then_do (fetchEmployees src (s\<lparr>isLoading := True\<rparr>)) (\<lambda>s1.
        then_do (fetchPaginatedTransactions src (page_cursor (paginatedTransactions snap)) s1)
          (\<lambda>s2. Done (s2\<lparr>isLoading := False\<rparr>)))
      else Done s)"

definition loadTransactionsByEmployee ::
  "'t source \<Rightarrow> string \<Rightarrow> 't app_state \<Rightarrow> 't app_state outcome" where
  "loadTransactionsByEmployee src i s =
     then_do (fetchTransactionsByEmployee src i (s\<lparr>employeeId := Some i, isLoading := True\<rparr>))
       (\<lambda>s1. Done (s1\<lparr>isLoading := False\<rparr>))"

definition mountEffect :: "'t source \<Rightarrow> 't app_state \<Rightarrow> 't app_state outcome" where
  "mountEffect src s =
     (if \<not> employeesLoading s \<and> employees s = None \<and> \<not> transactionsLoading s
      then loadAllTransactions src s s else Done s)"

definition handleEmployeeChange ::
  "'t source \<Rightarrow> employee option \<Rightarrow> 't app_state \<Rightarrow> 't app_state outcome" where
  "handleEmployeeChange src v s =
     (case v of
        None \<Rightarrow> Done s
      | Some e \<Rightarrow>
          if emp_id e \<noteq> [] then loadTransactionsByEmployee src (emp_id e) s
          else loadAllTransactions src s (s\<lparr>employeeId := None\<rparr>))"

definition loadMoreTransactions :: "'t source \<Rightarrow> 't app_state \<Rightarrow> 't app_state outcome" where
  "loadMoreTransactions src s =
     (if js_truthy_nat (page_cursor (paginatedTransactions s)) then
        then_do (fetchPaginatedTransactions src (page_cursor (paginatedTransactions s))
                   (s\<lparr>isLoading := True\<rparr>))
          (\<lambda>s1. let s2 = s1\<lparr>isLoading := False\<rparr> in
                 Done (case paginatedTransactions s of
                         None \<Rightarrow> s2
                       | Some p \<Rightarrow> s2\<lparr>allTransactions := allTransactions s2 @ page_data p\<rparr>))
      else Done s)"

subsection \<open>User events\<close>

text \<open>
  The events the presentation layer delivers: the mount effect firing, a choice in the
  employee select (\<open>null\<close> or an employee), and a click on "View More", which reaches
  \<open>loadMoreTransactions\<close> only when the button is rendered and enabled.
\<close>

datatype ui_event = Effect | SelectEmployee "employee option" | ClickViewMore

fun app_dispatch :: "'t source \<Rightarrow> ui_event \<Rightarrow> 't app_state \<Rightarrow> 't app_state outcome" where
  "app_dispatch src Effect s = mountEffect src s"
| "app_dispatch src (SelectEmployee v) s = handleEmployeeChange src v s"
| "app_dispatch src ClickViewMore s =
     (if shouldShowViewMore s \<and> \<not> viewMore_disabled s then loadMoreTransactions src s
      else Done s)"

fun app_run :: "'t source \<Rightarrow> ui_event list \<Rightarrow> 't app_state \<Rightarrow> 't app_state" where
  "app_run src [] s = s"
| "app_run src (e # es) s = app_run src es (outcome_state (app_dispatch src e s))"

subsection \<open>Invariant of the quiescent state\<close>

text \<open>
  Between two user events: no page and no accumulation before the employees are
  loaded, the filter is never the sentinel's empty id, and no hook is loading.
\<close>

definition app_inv :: "'t app_state \<Rightarrow> bool" where
  "app_inv s \<longleftrightarrow>
     (employees s = None \<longrightarrow> paginatedTransactions s = None \<and> allTransactions s = [])
     \<and> employeeId s \<noteq> Some []
     \<and> \<not> employeesLoading s \<and> \<not> transactionsLoading s \<and> \<not> transactionsByEmployeeLoading s"

subsection \<open>Handler lemmas\<close>

text \<open>The hooks' fetch functions, awaited, by the answer of the source.\<close>

lemma fetchEmployees_Inr:
  "listEmployees src = Inr es \<Longrightarrow>
   fetchEmployees src s = Done (s\<lparr>employees_hook := \<lparr>hook_data = Some es, hook_loading = False\<rparr>\<rparr>)"
  by (simp add: fetchEmployees_def)

lemma fetchEmployees_Inl:
  "listEmployees src = Inl e \<Longrightarrow>
   fetchEmployees src s = Raised e (s\<lparr>employees_hook := (employees_hook s)\<lparr>hook_loading := False\<rparr>\<rparr>)"
  by (simp add: fetchEmployees_def)

lemma fetchPaginatedTransactions_Inr:
  "fetchTransactionsPage src c = Inr p \<Longrightarrow>
   fetchPaginatedTransactions src c s =
     Done (s\<lparr>paginated_hook := \<lparr>hook_data = Some p, hook_loading = False\<rparr>\<rparr>)"
  by (simp add: fetchPaginatedTransactions_def)

lemma fetchPaginatedTransactions_Inl:
  "fetchTransactionsPage src c = Inl e \<Longrightarrow>
   fetchPaginatedTransactions src c s =
     Raised e (s\<lparr>paginated_hook := (paginated_hook s)\<lparr>hook_loading := False\<rparr>\<rparr>)"
  by (simp add: fetchPaginatedTransactions_def)

lemma fetchTransactionsByEmployee_Inr:
  "fetchTransactionsForEmployee src i = Inr ts \<Longrightarrow>
   fetchTransactionsByEmployee src i s =
     Done (s\<lparr>by_employee_hook := \<lparr>hook_data = Some ts, hook_loading = False\<rparr>\<rparr>)"
  by (simp add: fetchTransactionsByEmployee_def)

lemma fetchTransactionsByEmployee_Inl:
  "fetchTransactionsForEmployee src i = Inl e \<Longrightarrow>
   fetchTransactionsByEmployee src i s =
     Raised e (s\<lparr>by_employee_hook := (by_employee_hook s)\<lparr>hook_loading := False\<rparr>\<rparr>)"
  by (simp add: fetchTransactionsByEmployee_def)

lemmas fetch_results =
  fetchEmployees_Inr fetchEmployees_Inl fetchPaginatedTransactions_Inr fetchPaginatedTransactions_Inl
  fetchTransactionsByEmployee_Inr fetchTransactionsByEmployee_Inl

lemmas fetch_unfolds =
  fetchEmployees_def fetchPaginatedTransactions_def fetchTransactionsByEmployee_def settle_def

text \<open>
  A successful "View More": the old page's data (read from the handler's closure) is
  appended to the accumulation and the new page replaces the old one.
\<close>

lemma loadMore_Inr:
  assumes "paginatedTransactions s = Some p0" and "js_truthy_nat (nextPage p0)"
    and "fetchTransactionsPage src (nextPage p0) = Inr p"
  shows "loadMoreTransactions src s =
     Done (s\<lparr>paginated_hook := \<lparr>hook_data = Some p, hook_loading = False\<rparr>,
             isLoading := False, allTransactions := allTransactions s @ page_data p0\<rparr>)"
  using assms by (simp add: loadMoreTransactions_def fetchPaginatedTransactions_Inr)

lemma view_more_enabled:
  "js_truthy_nat (page_cursor (paginatedTransactions s)) \<Longrightarrow>
   \<not> js_truthy_str (employeeId s) \<Longrightarrow> \<not> isLoading s \<Longrightarrow> \<not> transactionsLoading s \<Longrightarrow>
   shouldShowViewMore s \<and> \<not> viewMore_disabled s"
  by (auto simp: shouldShowViewMore_def viewMore_disabled_def dest: js_truthy_nat_Some)

lemma click_view_more_Inr:
  assumes "shouldShowViewMore s" and "\<not> viewMore_disabled s"
    and "js_truthy_nat (page_cursor (paginatedTransactions s))"
    and "fetchTransactionsPage src (page_cursor (paginatedTransactions s)) = Inr p"
  shows "\<exists>s'. app_dispatch src ClickViewMore s = Done s'
           \<and> transactions s' = Some (merged s @ page_data p)
           \<and> allTransactions s' = merged s
           \<and> paginatedTransactions s' = Some p
           \<and> \<not> isLoading s' \<and> \<not> transactionsLoading s' \<and> employeeId s' = employeeId s"
proof -
  from assms(3) obtain p0 where p0: "paginatedTransactions s = Some p0"
    by (cases "paginatedTransactions s") simp_all
  with assms(3,4) have "loadMoreTransactions src s =
     Done (s\<lparr>paginated_hook := \<lparr>hook_data = Some p, hook_loading = False\<rparr>,
             isLoading := False, allTransactions := allTransactions s @ page_data p0\<rparr>)"
    by (intro loadMore_Inr) simp_all
  with assms(1,2) p0 show ?thesis
    by (simp add: transactions_def merged_def shouldShowViewMore_def)
qed

text \<open>Preservation of the invariant, one lemma per handler.\<close>

lemma app_inv_init: "app_inv app_init"
  by (simp add: app_inv_def app_init_def)

lemma loadAll_inv:
  assumes "app_inv s" and "employeeId s' \<noteq> Some []"
    and "s' = s \<or> s' = s\<lparr>employeeId := None\<rparr>"
  shows "app_inv (outcome_state (loadAllTransactions src s s'))"
  using assms
  by (auto simp: app_inv_def loadAllTransactions_def fetch_unfolds split: sum.splits)

lemma loadByEmployee_inv:
  "app_inv s \<Longrightarrow> i \<noteq> [] \<Longrightarrow> app_inv (outcome_state (loadTransactionsByEmployee src i s))"
  by (auto simp: app_inv_def loadTransactionsByEmployee_def fetch_unfolds split: sum.splits)

lemma loadMore_inv:
  "app_inv s \<Longrightarrow> app_inv (outcome_state (loadMoreTransactions src s))"
  by (auto simp: app_inv_def loadMoreTransactions_def fetch_unfolds Let_def
        split: sum.splits option.splits)

lemma dispatch_inv:
  assumes "app_inv s"
  shows "app_inv (outcome_state (app_dispatch src ev s))"
proof (cases ev)
  case Effect
  have "app_inv (outcome_state (loadAllTransactions src s s))"
    using assms by (intro loadAll_inv) (simp_all add: app_inv_def)
  with assms Effect show ?thesis by (simp add: mountEffect_def)
next
  case (SelectEmployee v)
  show ?thesis
  proof (cases v)
    case None
    with assms SelectEmployee show ?thesis by (simp add: handleEmployeeChange_def)
  next
    case (Some e)
    have "app_inv (outcome_state (loadAllTransactions src s (s\<lparr>employeeId := None\<rparr>)))"
      using assms by (intro loadAll_inv) simp_all
    with assms SelectEmployee Some show ?thesis
      by (simp add: handleEmployeeChange_def loadByEmployee_inv)
  qed
next
  case ClickViewMore
  with assms show ?thesis by (simp add: loadMore_inv)
qed

lemma app_run_inv: "app_inv s \<Longrightarrow> app_inv (app_run src evs s)"
  by (induction evs arbitrary: s) (simp_all add: dispatch_inv)

lemma app_run_append: "app_run src (evs @ evs') s = app_run src evs' (app_run src evs s)"
  by (induction evs arbitrary: s) simp_all

text \<open>The unfiltered list of a handler's result extends the one it started from.\<close>

lemma loadAll_merged:
  assumes "app_inv s" and "s' = s \<or> s' = s\<lparr>employeeId := None\<rparr>"
  shows "prefix (merged s) (merged (outcome_state (loadAllTransactions src s s')))"
proof (cases "employees s")
  case None
  with assms(1) have "merged s = []" by (simp add: app_inv_def merged_def)
  then show ?thesis by simp
next
  case (Some es)
  with assms(2) show ?thesis by (auto simp: loadAllTransactions_def merged_def)
qed

lemma loadByEmployee_merged:
  "merged (outcome_state (loadTransactionsByEmployee src i s)) = merged s"
  by (simp add: loadTransactionsByEmployee_def fetch_unfolds merged_def split: sum.splits)

lemma loadMore_merged:
  "prefix (merged s) (merged (outcome_state (loadMoreTransactions src s)))"
  by (auto simp: loadMoreTransactions_def fetch_unfolds Let_def merged_def
        split: sum.splits option.splits)

lemma dispatch_merged:
  assumes "app_inv s"
  shows "prefix (merged s) (merged (outcome_state (app_dispatch src ev s)))"
proof (cases ev)
  case Effect
  with assms loadAll_merged [of s s src] show ?thesis by (simp add: mountEffect_def)
next
  case (SelectEmployee v)
  with assms loadAll_merged [of s "s\<lparr>employeeId := None\<rparr>" src] show ?thesis
    by (auto simp: handleEmployeeChange_def loadByEmployee_merged split: option.splits)
next
  case ClickViewMore
  then show ?thesis by (simp add: loadMore_merged)
qed

lemma run_merged_prefix: "app_inv s \<Longrightarrow> prefix (merged s) (merged (app_run src evs s))"
proof (induction evs arbitrary: s)
  case Nil
  then show ?case by simp
next
  case (Cons ev evs)
  let ?s' = "outcome_state (app_dispatch src ev s)"
  have "prefix (merged s) (merged ?s')" using Cons.prems by (rule dispatch_merged)
  moreover have "prefix (merged ?s') (merged (app_run src evs ?s'))"
    using Cons.prems by (intro Cons.IH dispatch_inv)
  ultimately show ?case by (simp add: prefix_order.trans [of "merged s"])
qed

text \<open>Once the employees are loaded and no page is, no event ever loads a page.\<close>

lemma no_page_step:
  assumes "employees s \<noteq> None" and "paginatedTransactions s = None"
  shows "employees (outcome_state (app_dispatch src ev s)) \<noteq> None
         \<and> paginatedTransactions (outcome_state (app_dispatch src ev s)) = None"
proof -
  from assms(1) obtain es where es: "employees s = Some es" by blast
  show ?thesis
  proof (cases ev)
    case Effect
    with es assms(2) show ?thesis by (simp add: mountEffect_def)
  next
    case (SelectEmployee v)
    with es assms(2) show ?thesis
      by (auto simp: handleEmployeeChange_def loadAllTransactions_def loadTransactionsByEmployee_def
            fetch_unfolds split: option.splits sum.splits)
  next
    case ClickViewMore
    with es assms(2) show ?thesis by (simp add: shouldShowViewMore_def)
  qed
qed

text \<open>
  Repeated clicks on "View More" follow the cursor chain: the displayed list grows by
  each fetched page in order, the last fetched page becomes the latest page, and the
  filter is untouched.
\<close>

lemma view_more_run:
  assumes "page_chain src (page_cursor (paginatedTransactions s)) n = Some ps"
    and "\<not> js_truthy_str (employeeId s)" and "\<not> isLoading s" and "\<not> transactionsLoading s"
  shows "transactions (app_run src (replicate n ClickViewMore) s)
           = Some (merged s @ concat (map page_data ps))
         \<and> paginatedTransactions (app_run src (replicate n ClickViewMore) s)
           = (if ps = [] then paginatedTransactions s else Some (last ps))
         \<and> employeeId (app_run src (replicate n ClickViewMore) s) = employeeId s"
  using assms
proof (induction n arbitrary: s ps)
  case 0
  then show ?case by (simp add: transactions_def)
next
  case (Suc n)
  let ?c = "page_cursor (paginatedTransactions s)"
  from Suc.prems(1) have c: "js_truthy_nat ?c"
    by (simp split: if_splits)
  from Suc.prems(1) c obtain p ps' where
    p: "fetchTransactionsPage src ?c = Inr p" and ps: "ps = p # ps'"
    and rest: "page_chain src (nextPage p) n = Some ps'"
    by (auto split: sum.splits)
  from c Suc.prems(2-4) have en: "shouldShowViewMore s \<and> \<not> viewMore_disabled s"
    by (rule view_more_enabled)
  from click_view_more_Inr [OF conjunct1 [OF en] conjunct2 [OF en] c p]
  obtain s' where d: "app_dispatch src ClickViewMore s = Done s'"
    and t: "transactions s' = Some (merged s @ page_data p)"
    and pg: "paginatedTransactions s' = Some p"
    and fl: "\<not> isLoading s'" "\<not> transactionsLoading s'" "employeeId s' = employeeId s"
    by blast
  from t fl Suc.prems(2) have m: "merged s' = merged s @ page_data p"
    by (simp add: transactions_def)
  have IH: "transactions (app_run src (replicate n ClickViewMore) s')
          = Some (merged s' @ concat (map page_data ps'))
         \<and> paginatedTransactions (app_run src (replicate n ClickViewMore) s')
           = (if ps' = [] then paginatedTransactions s' else Some (last ps'))
         \<and> employeeId (app_run src (replicate n ClickViewMore) s') = employeeId s'"
    using rest pg fl Suc.prems(2) by (intro Suc.IH) simp_all
  with d m ps pg fl(3) show ?case by simp
qed

subsection \<open>Properties of the orchestrator\<close>

text \<open>
  C1. Clicking the enabled "View More" button in unfiltered mode, when the next page
  is fetched, displays the previous list followed by exactly the new page's items:
  each page is merged into the accumulation once, and the new page becomes the
  latest page.
\<close>

theorem load_more_appends_page:
  assumes "shouldShowViewMore s" and "\<not> viewMore_disabled s"
    and "js_truthy_nat (page_cursor (paginatedTransactions s))"
    and "fetchTransactionsPage src (page_cursor (paginatedTransactions s)) = Inr p"
  shows "\<exists>s'. app_dispatch src ClickViewMore s = Done s'
           \<and> transactions s' = Some (merged s @ page_data p)
           \<and> allTransactions s' = merged s
           \<and> paginatedTransactions s' = Some p
           \<and> \<not> isLoading s' \<and> \<not> transactionsLoading s' \<and> employeeId s' = employeeId s"
  using assms by (rule click_view_more_Inr)

text \<open>
  C2. After \<open>n\<close> clicks on "View More" in unfiltered mode, each fetching the page the
  previous one points to, the displayed list is the list before the clicks followed by
  the \<open>n\<close> fetched pages in fetch order, with no item duplicated or dropped.
\<close>

theorem view_more_run_concat:
  assumes "page_chain src (page_cursor (paginatedTransactions s)) n = Some ps"
    and "\<not> js_truthy_str (employeeId s)" and "\<not> isLoading s" and "\<not> transactionsLoading s"
  shows "transactions (app_run src (replicate n ClickViewMore) s)
           = Some (merged s @ concat (map page_data ps))"
  using view_more_run [OF assms] by (rule conjunct1)

text \<open>
  C3. On mount, with the employee list and the first page fetched, the displayed list
  is the first page, the filter offers the sentinel followed by the employees, and
  "View More" is shown exactly when the first page has a next cursor.
\<close>

theorem initial_load:
  assumes "listEmployees src = Inr es" and "fetchTransactionsPage src None = Inr p"
  shows "\<exists>s. app_dispatch src Effect app_init = Done s
           \<and> transactions s = Some (page_data p)
           \<and> select_items s = EMPTY_EMPLOYEE # es
           \<and> shouldShowViewMore s = (nextPage p \<noteq> None)
           \<and> \<not> isLoading s \<and> loadingLabel s = []"
  using assms
  by (simp add: app_init_def mountEffect_def loadAllTransactions_def fetch_results
        transactions_def merged_def select_items_def shouldShowViewMore_def loadingLabel_def)

text \<open>
  C4. Once the employees are loaded, the initial-load path performs no fetch and
  changes nothing, for every source: the mount effect, \<open>loadAllTransactions\<close> and
  choosing the "no filter" sentinel (which only clears the filter).
\<close>

theorem initial_load_idempotent:
  assumes "employees s \<noteq> None"
  shows "app_dispatch src Effect s = Done s
         \<and> loadAllTransactions src s s' = Done s'
         \<and> app_dispatch src (SelectEmployee (Some EMPTY_EMPLOYEE)) s = Done (s\<lparr>employeeId := None\<rparr>)"
proof -
  from assms obtain es where "employees s = Some es" by blast
  then show ?thesis
    by (simp add: mountEffect_def loadAllTransactions_def handleEmployeeChange_def EMPTY_EMPLOYEE_def)
qed

text \<open>
  C5. Choosing an employee, when that employee's transactions are fetched, displays
  exactly those transactions with no "View More", and leaves the accumulation and the
  latest page untouched.
\<close>

theorem select_employee_shows_only_theirs:
  assumes "emp_id e \<noteq> []" and "fetchTransactionsForEmployee src (emp_id e) = Inr ts"
  shows "\<exists>s'. app_dispatch src (SelectEmployee (Some e)) s = Done s'
           \<and> transactions s' = Some ts \<and> \<not> shouldShowViewMore s'
           \<and> allTransactions s' = allTransactions s
           \<and> paginatedTransactions s' = paginatedTransactions s \<and> \<not> isLoading s'"
  using assms
  by (simp add: handleEmployeeChange_def loadTransactionsByEmployee_def fetch_results
        transactions_def shouldShowViewMore_def)

text \<open>
  C6. Choosing an employee and then the "no filter" sentinel displays the unfiltered
  list shown before, unchanged: the employee's list is never mixed in.
\<close>

theorem clear_filter_restores:
  assumes "employees s \<noteq> None" and "\<not> js_truthy_str (employeeId s)"
    and "emp_id e \<noteq> []" and "fetchTransactionsForEmployee src (emp_id e) = Inr ts"
  shows "transactions (app_run src [SelectEmployee (Some e), SelectEmployee (Some EMPTY_EMPLOYEE)] s)
           = transactions s"
proof -
  from assms(1) obtain es where "employees s = Some es" by blast
  with assms(2-4) show ?thesis
    by (simp add: handleEmployeeChange_def loadTransactionsByEmployee_def loadAllTransactions_def
          fetch_results transactions_def merged_def EMPTY_EMPLOYEE_def)
qed

text \<open>
  C7. While an employee filter is active, "View More" is not shown and a click on it
  has no effect, whatever the pagination cursor.
\<close>

theorem filtered_no_view_more:
  assumes "js_truthy_str (employeeId s)"
  shows "\<not> shouldShowViewMore s \<and> app_dispatch src ClickViewMore s = Done s"
  using assms by (simp add: shouldShowViewMore_def)

text \<open>
  C8. Every state reached from mount by any sequence of events, failed fetches
  included, satisfies the invariant: no page and no accumulation before the employees
  are loaded, the filter is never the empty id, and no hook is left loading.
\<close>

theorem reachable_app_inv: "app_inv (app_run src evs app_init)"
  using app_inv_init by (rule app_run_inv)

text \<open>
  C9. The unfiltered list never shrinks: along any run from mount, the list at any
  point is a prefix of the list at every later point.
\<close>

theorem displayed_never_shrinks:
  "prefix (merged (app_run src evs app_init)) (merged (app_run src (evs @ evs') app_init))"
proof -
  have "app_inv (app_run src evs app_init)" using app_inv_init by (rule app_run_inv)
  then show ?thesis by (simp add: app_run_append run_merged_prefix)
qed

text \<open>
  C10. When the page fetch of "View More" fails, the handler rejects with
  \<open>isLoading\<close> still set: the button stays disabled and the select shows loading,
  while the displayed list is unchanged (the code has no \<open>try/finally\<close>).
\<close>

theorem load_more_failure_keeps_busy:
  assumes "shouldShowViewMore s" and "\<not> viewMore_disabled s"
    and "js_truthy_nat (page_cursor (paginatedTransactions s))"
    and "fetchTransactionsPage src (page_cursor (paginatedTransactions s)) = Inl e"
  shows "\<exists>s'. app_dispatch src ClickViewMore s = Raised e s'
           \<and> isLoading s' \<and> viewMore_disabled s' \<and> select_isLoading s'
           \<and> transactions s' = transactions s"
  using assms
  by (simp add: loadMoreTransactions_def fetch_results viewMore_disabled_def select_isLoading_def
        transactions_def merged_def)

text \<open>
  C11. If the employees are loaded but no page is (the first-page fetch of the initial
  load failed), no sequence of events ever loads a page: the initial-load guard tests
  only the employees, and "View More" needs a page.
\<close>

theorem page_never_loads_after_failed_first_page:
  "employees s \<noteq> None \<Longrightarrow> paginatedTransactions s = None \<Longrightarrow>
   paginatedTransactions (app_run src evs s) = None"
proof (induction evs arbitrary: s)
  case Nil
  then show ?case by simp
next
  case (Cons ev evs)
  from no_page_step [OF Cons.prems] show ?case by (simp add: Cons.IH)
qed

text \<open>
  C12. A page whose next cursor is the falsy page number 0 shows an enabled
  "View More" button (its test is \<open>!= null\<close>), but the click does nothing (the
  handler's test is truthiness).
\<close>

theorem zero_cursor_view_more_inert:
  assumes "paginatedTransactions s = Some p" and "nextPage p = Some 0"
    and "\<not> js_truthy_str (employeeId s)" and "\<not> isLoading s" and "\<not> transactionsLoading s"
  shows "shouldShowViewMore s \<and> \<not> viewMore_disabled s \<and> viewMore_label s = ''View More''
         \<and> app_dispatch src ClickViewMore s = Done s"
  using assms
  by (simp add: shouldShowViewMore_def viewMore_disabled_def viewMore_label_def loadMoreTransactions_def)

subsection \<open>Witnesses on the scenario source\<close>

lemmas app_unfolds =
  app_init_def mountEffect_def loadAllTransactions_def handleEmployeeChange_def
  loadTransactionsByEmployee_def loadMoreTransactions_def fetch_unfolds
  transactions_def merged_def shouldShowViewMore_def viewMore_disabled_def

theorem load_more_appends_page_witness:
  "\<exists>s'. app_dispatch scenario_source ClickViewMore (app_run scenario_source [Effect] app_init) = Done s'
     \<and> transactions s' = Some ([1, 2] @ [3])
     \<and> allTransactions s' = [1, 2]
     \<and> paginatedTransactions s' = Some \<lparr>page_data = [3], nextPage = None\<rparr>
     \<and> \<not> isLoading s' \<and> \<not> transactionsLoading s' \<and> employeeId s' = None"
proof -
  let ?s = "app_run scenario_source [Effect] app_init"
  have h1: "shouldShowViewMore ?s" and h2: "\<not> viewMore_disabled ?s"
    and h3: "js_truthy_nat (page_cursor (paginatedTransactions ?s))"
    and h4: "fetchTransactionsPage scenario_source (page_cursor (paginatedTransactions ?s))
               = Inr \<lparr>page_data = [3], nextPage = None\<rparr>"
    and m: "merged ?s = [1, 2]" and i: "employeeId ?s = None"
    by (simp_all add: app_unfolds scenario_source_def)
  from load_more_appends_page [OF h1 h2 h3 h4] m i show ?thesis by simp
qed

theorem view_more_run_concat_witness:
  "transactions (app_run scenario_source (replicate 1 ClickViewMore)
                   (app_run scenario_source [Effect] app_init))
     = Some ([1, 2] @ concat (map page_data [\<lparr>page_data = [3::nat], nextPage = None\<rparr>]))"
proof -
  let ?s = "app_run scenario_source [Effect] app_init"
  have "page_chain scenario_source (page_cursor (paginatedTransactions ?s)) 1
          = Some [\<lparr>page_data = [3], nextPage = None\<rparr>]"
    and "\<not> js_truthy_str (employeeId ?s)" and "\<not> isLoading ?s" and "\<not> transactionsLoading ?s"
    and m: "merged ?s = [1, 2]"
    by (simp_all add: app_unfolds scenario_source_def)
  from view_more_run_concat [OF this(1-4)] m show ?thesis by simp
qed

theorem initial_load_witness:
  "\<exists>s. app_dispatch scenario_source Effect app_init = Done s
     \<and> transactions s = Some [1, 2]
     \<and> select_items s = [EMPTY_EMPLOYEE, ann_lee]
     \<and> shouldShowViewMore s \<and> \<not> isLoading s \<and> loadingLabel s = []"
proof -
  have "listEmployees scenario_source = Inr [ann_lee]"
    and "fetchTransactionsPage scenario_source None = Inr \<lparr>page_data = [1, 2], nextPage = Some 1\<rparr>"
    by (simp_all add: scenario_source_def)
  from initial_load [OF this] show ?thesis by simp
qed

theorem initial_load_idempotent_witness:
  "app_dispatch scenario_source Effect (app_run scenario_source [Effect] app_init)
     = Done (app_run scenario_source [Effect] app_init)
   \<and> loadAllTransactions scenario_source (app_run scenario_source [Effect] app_init) app_init
     = Done app_init
   \<and> app_dispatch scenario_source (SelectEmployee (Some EMPTY_EMPLOYEE))
       (app_run scenario_source [Effect] app_init)
     = Done ((app_run scenario_source [Effect] app_init)\<lparr>employeeId := None\<rparr>)"
proof -
  have "employees (app_run scenario_source [Effect] app_init) \<noteq> None"
    by (simp add: app_unfolds scenario_source_def)
  from initial_load_idempotent [OF this] show ?thesis by blast
qed

theorem select_employee_shows_only_theirs_witness:
  "\<exists>s'. app_dispatch scenario_source (SelectEmployee (Some ann_lee))
          (app_run scenario_source [Effect] app_init) = Done s'
     \<and> transactions s' = Some [4] \<and> \<not> shouldShowViewMore s'
     \<and> allTransactions s' = []
     \<and> paginatedTransactions s' = Some \<lparr>page_data = [1, 2], nextPage = Some 1\<rparr>
     \<and> \<not> isLoading s'"
proof -
  let ?s = "app_run scenario_source [Effect] app_init"
  have "emp_id ann_lee \<noteq> []" and "fetchTransactionsForEmployee scenario_source (emp_id ann_lee) = Inr [4]"
    and "allTransactions ?s = []"
    and "paginatedTransactions ?s = Some \<lparr>page_data = [1, 2], nextPage = Some 1\<rparr>"
    by (simp_all add: app_unfolds scenario_source_def ann_lee_def)
  from select_employee_shows_only_theirs [OF this(1,2), of ?s] this(3,4) show ?thesis by simp
qed

theorem clear_filter_restores_witness:
  "transactions (app_run scenario_source [SelectEmployee (Some ann_lee), SelectEmployee (Some EMPTY_EMPLOYEE)]
      (app_run scenario_source [Effect] app_init)) = Some [1, 2]"
proof -
  let ?s = "app_run scenario_source [Effect] app_init"
  have "employees ?s \<noteq> None" and "\<not> js_truthy_str (employeeId ?s)"
    and "emp_id ann_lee \<noteq> []" and "fetchTransactionsForEmployee scenario_source (emp_id ann_lee) = Inr [4]"
    and "transactions ?s = Some [1, 2]"
    by (simp_all add: app_unfolds scenario_source_def ann_lee_def)
  from clear_filter_restores [OF this(1-4)] this(5) show ?thesis by simp
qed

theorem filtered_no_view_more_witness:
  "\<not> shouldShowViewMore (app_run scenario_source [Effect, SelectEmployee (Some ann_lee)] app_init)
   \<and> app_dispatch scenario_source ClickViewMore
       (app_run scenario_source [Effect, SelectEmployee (Some ann_lee)] app_init)
     = Done (app_run scenario_source [Effect, SelectEmployee (Some ann_lee)] app_init)"
proof -
  have "js_truthy_str (employeeId (app_run scenario_source [Effect, SelectEmployee (Some ann_lee)] app_init))"
    by (simp add: app_unfolds scenario_source_def ann_lee_def)
  from filtered_no_view_more [OF this] show ?thesis .
qed

theorem reachable_app_inv_witness:
  "app_inv (app_run scenario_source [Effect, ClickViewMore, SelectEmployee (Some ann_lee)] app_init)"
  by (rule reachable_app_inv)

theorem load_more_failure_keeps_busy_witness:
  "\<exists>s'. app_dispatch flaky_source ClickViewMore (app_run flaky_source [Effect] app_init) = Raised FetchError s'
     \<and> isLoading s' \<and> viewMore_disabled s' \<and> select_isLoading s'
     \<and> transactions s' = Some [1, 2]"
proof -
  let ?s = "app_run flaky_source [Effect] app_init"
  have "shouldShowViewMore ?s" and "\<not> viewMore_disabled ?s"
    and "js_truthy_nat (page_cursor (paginatedTransactions ?s))"
    and "fetchTransactionsPage flaky_source (page_cursor (paginatedTransactions ?s)) = Inl FetchError"
    and "transactions ?s = Some [1, 2]"
    by (simp_all add: app_unfolds flaky_source_def scenario_source_def)
  from load_more_failure_keeps_busy [OF this(1-4)] this(5) show ?thesis by simp
qed

theorem page_never_loads_after_failed_first_page_witness:
  "paginatedTransactions
     (app_run no_page_source [Effect, ClickViewMore, SelectEmployee (Some ann_lee),
        SelectEmployee (Some EMPTY_EMPLOYEE), Effect]
        (app_run no_page_source [Effect] app_init)) = None"
proof -
  have "employees (app_run no_page_source [Effect] app_init) \<noteq> None"
    and "paginatedTransactions (app_run no_page_source [Effect] app_init) = None"
    by (simp_all add: app_unfolds no_page_source_def scenario_source_def)
  from page_never_loads_after_failed_first_page [OF this] show ?thesis .
qed

theorem zero_cursor_view_more_inert_witness:
  "shouldShowViewMore (app_run zero_cursor_source [Effect] app_init)
   \<and> \<not> viewMore_disabled (app_run zero_cursor_source [Effect] app_init)
   \<and> viewMore_label (app_run zero_cursor_source [Effect] app_init) = ''View More''
   \<and> app_dispatch zero_cursor_source ClickViewMore (app_run zero_cursor_source [Effect] app_init)
     = Done (app_run zero_cursor_source [Effect] app_init)"
proof -
  let ?s = "app_run zero_cursor_source [Effect] app_init"
  have "paginatedTransactions ?s = Some \<lparr>page_data = [1, 2], nextPage = Some 0\<rparr>"
    and "nextPage \<lparr>page_data = [1::nat, 2], nextPage = Some 0\<rparr> = Some 0"
    and "\<not> js_truthy_str (employeeId ?s)" and "\<not> isLoading ?s" and "\<not> transactionsLoading ?s"
    by (simp_all add: app_unfolds zero_cursor_source_def scenario_source_def)
  from zero_cursor_view_more_inert [OF this] show ?thesis .
qed

theorem displayed_never_shrinks_witness:
  "prefix (merged (app_run scenario_source [Effect] app_init))
          (merged (app_run scenario_source ([Effect] @ [ClickViewMore, SelectEmployee (Some ann_lee)]) app_init))"
  by (rule displayed_never_shrinks)

end
