(* ===== verification/Async.thy ===== *)
theory Async
  imports App
begin

text \<open>
  Interleaved semantics of the handlers of \<open>src/App.tsx\<close>. Each handler runs
  synchronously up to its first \<open>await\<close>, leaving a pending request (a \<open>task\<close>)
  that remembers what its continuation needs from the handler's closure; the answers
  arrive in any order, each running the rest of its handler up to the next \<open>await\<close>.
  Between two steps React has re-rendered, so a new event's closure reads the current
  state. The flag \<open>gated\<close> says whether a click on "View More" is delivered only
  while the button is enabled (the code's only guard, its \<open>disabled\<close> attribute) or
  also while it is disabled (an over-approximation: the DOM delivers no click to a
  disabled button). The ghost field
  \<open>fetched\<close> records the pages stored into the page hook, in order.
\<close>

datatype 't task =
    T_Employees "nat option"
  | T_Page "nat option"
  | T_ByEmployee string
  | T_More "nat option" "'t page option"

record 't sys =
  app :: "'t app_state"
  pending :: "'t task list"
  fetched :: "'t page list"

definition sys_init :: "'t sys" where
  "sys_init = \<lparr>app = app_init, pending = [], fetched = []\<rparr>"

definition remove_nth :: "nat \<Rightarrow> 'a list \<Rightarrow> 'a list" where
  "remove_nth i xs = take i xs @ drop (Suc i) xs"

subsection \<open>Running a handler up to its first await\<close>

definition start_loadAll :: "'t app_state \<Rightarrow> 't sys \<Rightarrow> 't sys" where
  "start_loadAll snap S =
     (if employees snap = None \<and> \<not> employeesLoading snap then
        S\<lparr>app := (app S)\<lparr>isLoading := True, employees_hook := hook_start (employees_hook (app S))\<rparr>,
          pending := pending S @ [T_Employees (page_cursor (paginatedTransactions snap))]\<rparr>
      else S)"

definition start_byEmployee :: "string \<Rightarrow> 't sys \<Rightarrow> 't sys" where
  "start_byEmployee i S =
     S\<lparr>app := (app S)\<lparr>employeeId := Some i, isLoading := True,
                         by_employee_hook := hook_start (by_employee_hook (app S))\<rparr>,
       pending := pending S @ [T_ByEmployee i]\<rparr>"

definition start_loadMore :: "'t sys \<Rightarrow> 't sys" where
  "start_loadMore S =
     (if js_truthy_nat (page_cursor (paginatedTransactions (app S))) then
        S\<lparr>app := (app S)\<lparr>isLoading := True, paginated_hook := hook_start (paginated_hook (app S))\<rparr>,
          pending := pending S @ [T_More (page_cursor (paginatedTransactions (app S)))
                                         (paginatedTransactions (app S))]\<rparr>
      else S)"

fun start_event :: "bool \<Rightarrow> ui_event \<Rightarrow> 't sys \<Rightarrow> 't sys" where
  "start_event g Effect S =
     (if \<not> employeesLoading (app S) \<and> employees (app S) = None \<and> \<not> transactionsLoading (app S)
      then start_loadAll (app S) S else S)"
| "start_event g (SelectEmployee v) S =
     (case v of
        None \<Rightarrow> S
      | Some e \<Rightarrow>
          if emp_id e \<noteq> [] then start_byEmployee (emp_id e) S
          else start_loadAll (app S) (S\<lparr>app := (app S)\<lparr>employeeId := None\<rparr>\<rparr>))"
| "start_event g ClickViewMore S =
     (if shouldShowViewMore (app S) \<and> (if g then \<not> viewMore_disabled (app S) else True)
      then start_loadMore S else S)"

subsection \<open>An answer arrives\<close>

fun respond :: "'t source \<Rightarrow> 't task \<Rightarrow> 't sys \<Rightarrow> 't sys" where
  "respond src (T_Employees c) S =
     (let a = (app S)\<lparr>employees_hook := hook_resolve (listEmployees src) (employees_hook (app S))\<rparr> in
      case listEmployees src of
        Inl e \<Rightarrow> S\<lparr>app := a\<rparr>
      | Inr es \<Rightarrow> S\<lparr>app := a\<lparr>paginated_hook := hook_start (paginated_hook a)\<rparr>,
                   pending := pending S @ [T_Page c]\<rparr>)"
| "respond src (T_Page c) S =
     (let a = (app S)\<lparr>paginated_hook := hook_resolve (fetchTransactionsPage src c) (paginated_hook (app S))\<rparr> in
      case fetchTransactionsPage src c of
        Inl e \<Rightarrow> S\<lparr>app := a\<rparr>
      | Inr p \<Rightarrow> S\<lparr>app := a\<lparr>isLoading := False\<rparr>, fetched := fetched S @ [p]\<rparr>)"
| "respond src (T_ByEmployee i) S =
     (let a = (app S)\<lparr>by_employee_hook :=
                 hook_resolve (fetchTransactionsForEmployee src i) (by_employee_hook (app S))\<rparr> in
      case fetchTransactionsForEmployee src i of
        Inl e \<Rightarrow> S\<lparr>app := a\<rparr>
      | Inr ts \<Rightarrow> S\<lparr>app := a\<lparr>isLoading := False\<rparr>\<rparr>)"
| "respond src (T_More c old) S =
     (let a = (app S)\<lparr>paginated_hook := hook_resolve (fetchTransactionsPage src c) (paginated_hook (app S))\<rparr> in
      case fetchTransactionsPage src c of
        Inl e \<Rightarrow> S\<lparr>app := a\<rparr>
      | Inr p \<Rightarrow>
          S\<lparr>app := (case old of
                       None \<Rightarrow> a\<lparr>isLoading := False\<rparr>
                     | Some q \<Rightarrow> a\<lparr>isLoading := False,
                                    allTransactions := allTransactions a @ page_data q\<rparr>),
            fetched := fetched S @ [p]\<rparr>)"

subsection \<open>Interleavings\<close>

inductive async_step :: "'t source \<Rightarrow> bool \<Rightarrow> 't sys \<Rightarrow> 't sys \<Rightarrow> bool" for src g where
  user: "async_step src g S (start_event g ev S)"
| answer: "i < length (pending S) \<Longrightarrow>
     async_step src g S (respond src (pending S ! i) (S\<lparr>pending := remove_nth i (pending S)\<rparr>))"

inductive async_reach :: "'t source \<Rightarrow> bool \<Rightarrow> 't sys \<Rightarrow> bool" for src g where
  init: "async_reach src g sys_init"
| step: "async_reach src g S \<Longrightarrow> async_step src g S S' \<Longrightarrow> async_reach src g S'"

datatype action = User ui_event | Answer nat

fun exec_action :: "'t source \<Rightarrow> bool \<Rightarrow> action \<Rightarrow> 't sys \<Rightarrow> 't sys" where
  "exec_action src g (User ev) S = start_event g ev S"
| "exec_action src g (Answer i) S =
     (if i < length (pending S)
      then respond src (pending S ! i) (S\<lparr>pending := remove_nth i (pending S)\<rparr>) else S)"

fun exec_actions :: "'t source \<Rightarrow> bool \<Rightarrow> action list \<Rightarrow> 't sys \<Rightarrow> 't sys" where
  "exec_actions src g [] S = S"
| "exec_actions src g (x # xs) S = exec_actions src g xs (exec_action src g x S)"

fun drain :: "'t source \<Rightarrow> nat \<Rightarrow> 't sys \<Rightarrow> 't sys" where
  "drain src 0 S = S"
| "drain src (Suc n) S =
     (case pending S of [] \<Rightarrow> S | t # ts \<Rightarrow> drain src n (respond src t (S\<lparr>pending := ts\<rparr>)))"

subsection \<open>The invariant of the gated system\<close>

text \<open>
  At most one page request and at most one employee-list request are in flight, each
  exactly while its hook's \<open>loading\<close> flag is set; the latest page is the last
  delivered page and the accumulation is the concatenation of the pages delivered
  before it; a suspended "View More" remembers the current latest page; the first-page
  request of the initial load exists only before any page is delivered.
\<close>

fun is_page_task :: "'t task \<Rightarrow> bool" where
  "is_page_task (T_Page c) = True"
| "is_page_task (T_More c q) = True"
| "is_page_task (T_Employees c) = False"
| "is_page_task (T_ByEmployee i) = False"

fun is_emp_task :: "'t task \<Rightarrow> bool" where
  "is_emp_task (T_Employees c) = True"
| "is_emp_task (T_Page c) = False"
| "is_emp_task (T_More c q) = False"
| "is_emp_task (T_ByEmployee i) = False"

fun task_ok :: "employee list option \<Rightarrow> 't page option \<Rightarrow> 't page list \<Rightarrow> 't task \<Rightarrow> bool" where
  "task_ok es pg f (T_Employees c) = (es = None)"
| "task_ok es pg f (T_Page c) = (f = [] \<and> es \<noteq> None)"
| "task_ok es pg f (T_ByEmployee i) = True"
| "task_ok es pg f (T_More c q) = (q = pg \<and> f \<noteq> [])"

definition async_inv :: "'t sys \<Rightarrow> bool" where
  "async_inv S \<longleftrightarrow>
     length (filter is_page_task (pending S)) \<le> 1
     \<and> transactionsLoading (app S) = (filter is_page_task (pending S) \<noteq> [])
     \<and> length (filter is_emp_task (pending S)) \<le> 1
     \<and> employeesLoading (app S) = (filter is_emp_task (pending S) \<noteq> [])
     \<and> paginatedTransactions (app S) = (if fetched S = [] then None else Some (last (fetched S)))
     \<and> allTransactions (app S) = concat (map page_data (butlast (fetched S)))
     \<and> (employees (app S) = None \<longrightarrow> fetched S = [])
     \<and> list_all (task_ok (employees (app S)) (paginatedTransactions (app S)) (fetched S)) (pending S)"

subsection \<open>Proofs\<close>

lemmas start_defs = start_loadAll_def start_byEmployee_def start_loadMore_def

lemma remove_nth_split:
  "i < length xs \<Longrightarrow> xs = take i xs @ xs ! i # drop (Suc i) xs"
  by (simp add: id_take_nth_drop)

lemma filter_remove_nth:
  "i < length xs \<Longrightarrow>
   length (filter P xs) = length (filter P (remove_nth i xs)) + (if P (xs ! i) then 1 else 0)"
proof -
  assume i: "i < length xs"
  have "filter P xs = filter P (take i xs) @ filter P [xs ! i] @ filter P (drop (Suc i) xs)"
    by (subst remove_nth_split [OF i]) simp
  then show ?thesis by (simp add: remove_nth_def)
qed

lemma set_remove_nth: "set (remove_nth i xs) \<subseteq> set xs"
  by (auto simp: remove_nth_def dest: in_set_takeD in_set_dropD)

lemma list_all_remove_nth: "list_all P xs \<Longrightarrow> list_all P (remove_nth i xs)"
  using set_remove_nth by (fastforce simp: list_all_iff)

lemma inv_start_loadAll:
  assumes "async_inv S" and "employees snap = employees (app S)"
    and "employeesLoading snap = employeesLoading (app S)"
  shows "async_inv (start_loadAll snap S)"
  using assms by (auto simp: async_inv_def start_loadAll_def list_all_iff)

lemma inv_start_byEmployee: "async_inv S \<Longrightarrow> async_inv (start_byEmployee i S)"
  by (auto simp: async_inv_def start_byEmployee_def list_all_iff)

lemma inv_start_loadMore:
  "async_inv S \<Longrightarrow> \<not> transactionsLoading (app S) \<Longrightarrow> async_inv (start_loadMore S)"
  by (auto simp: async_inv_def start_loadMore_def list_all_iff dest: js_truthy_nat_Some split: if_splits)

lemma inv_set_filter: "async_inv S \<Longrightarrow> async_inv (S\<lparr>app := (app S)\<lparr>employeeId := x\<rparr>\<rparr>)"
  unfolding async_inv_def by (elim conjE) (intro conjI; assumption?; simp)

lemma inv_start_event: "async_inv S \<Longrightarrow> async_inv (start_event True ev S)"
proof (cases ev)
  case Effect
  assume "async_inv S"
  with Effect show ?thesis by (simp add: inv_start_loadAll)
next
  case (SelectEmployee v)
  assume "async_inv S"
  with SelectEmployee show ?thesis
    by (auto simp: inv_start_byEmployee split: option.splits intro!: inv_start_loadAll inv_set_filter)
next
  case ClickViewMore
  assume "async_inv S"
  with ClickViewMore show ?thesis
    by (simp add: inv_start_loadMore viewMore_disabled_def)
qed

lemma nonempty_filter_length: "(filter P xs \<noteq> []) = (0 < length (filter P xs))"
  by simp

lemma only_by_employee:
  "list_all (task_ok es pg f) xs \<Longrightarrow> filter is_page_task xs = [] \<Longrightarrow> filter is_emp_task xs = [] \<Longrightarrow>
   list_all (task_ok es' pg' f') xs"
proof (induction xs)
  case Nil
  then show ?case by simp
next
  case (Cons x xs)
  then show ?case by (cases x) simp_all
qed

lemma no_emp_task_after_load:
  "list_all (task_ok (Some es) pg f) xs \<Longrightarrow> filter is_emp_task xs = []"
proof (induction xs)
  case Nil
  then show ?case by simp
next
  case (Cons x xs)
  then show ?case by (cases x) auto
qed

lemma no_page_task_before_load:
  "list_all (task_ok None pg []) xs \<Longrightarrow> filter is_page_task xs = []"
proof (induction xs)
  case Nil
  then show ?case by simp
next
  case (Cons x xs)
  then show ?case by (cases x) simp_all
qed

lemma filter_remove_nth_single:
  "i < length xs \<Longrightarrow> P (xs ! i) \<Longrightarrow> length (filter P xs) \<le> 1 \<Longrightarrow> filter P (remove_nth i xs) = []"
  using filter_remove_nth [of i xs P] by simp

lemma filter_remove_nth_other:
  "i < length xs \<Longrightarrow> \<not> P (xs ! i) \<Longrightarrow>
   (filter P (remove_nth i xs) = []) = (filter P xs = [])"
proof -
  assume "i < length xs" and "\<not> P (xs ! i)"
  then have "length (filter P xs) = length (filter P (remove_nth i xs))"
    using filter_remove_nth [of i xs P] by simp
  then show ?thesis by (metis length_0_conv)
qed

lemma inv_respond:
  assumes inv: "async_inv S" and i: "i < length (pending S)"
  shows "async_inv (respond src (pending S ! i) (S\<lparr>pending := remove_nth i (pending S)\<rparr>))"
proof -
  let ?t = "pending S ! i" and ?r = "remove_nth i (pending S)"
  let ?ok = "task_ok (employees (app S)) (paginatedTransactions (app S)) (fetched S)"
  have ok: "?ok ?t" using inv i unfolding async_inv_def list_all_length by blast
  have okr: "list_all ?ok ?r" using inv unfolding async_inv_def by (blast intro: list_all_remove_nth)
  have pc: "length (filter is_page_task (pending S)) \<le> 1"
    and ec: "length (filter is_emp_task (pending S)) \<le> 1"
    and tl: "transactionsLoading (app S) = (filter is_page_task (pending S) \<noteq> [])"
    and el: "employeesLoading (app S) = (filter is_emp_task (pending S) \<noteq> [])"
    and pg: "paginatedTransactions (app S) = (if fetched S = [] then None else Some (last (fetched S)))"
    and al: "allTransactions (app S) = concat (map page_data (butlast (fetched S)))"
    and ef: "employees (app S) = None \<longrightarrow> fetched S = []"
    using inv unfolding async_inv_def by blast+
  show ?thesis
  proof (cases ?t)
    case (T_Employees c)
    from ok T_Employees have es: "employees (app S) = None" by simp
    with ef have f: "fetched S = []" by simp
    with pg al have pg0: "paginatedTransactions (app S) = None" and al0: "allTransactions (app S) = []"
      by simp_all
    from i T_Employees ec have noemp: "filter is_emp_task ?r = []"
      by (intro filter_remove_nth_single) simp_all
    from okr es f pg0 have nopage: "filter is_page_task ?r = []"
      by (intro no_page_task_before_load) simp
    note rest = only_by_employee [OF okr nopage noemp]
    have tl0: "\<not> transactionsLoading (app S)"
      using tl nopage filter_remove_nth_other [OF i, of is_page_task] T_Employees by simp
    show ?thesis
      using T_Employees es f pg0 al0 noemp nopage rest tl0
      by (simp add: async_inv_def Let_def split: sum.split)
  next
    case (T_Page c)
    from ok T_Page have f: "fetched S = []" and es: "employees (app S) \<noteq> None" by simp_all
    with pg al have pg0: "paginatedTransactions (app S) = None" and al0: "allTransactions (app S) = []"
      by simp_all
    from i T_Page pc have nopage: "filter is_page_task ?r = []"
      by (intro filter_remove_nth_single) simp_all
    from okr es have noemp: "filter is_emp_task ?r = []"
      by (auto intro: no_emp_task_after_load)
    note rest = only_by_employee [OF okr nopage noemp]
    have el0: "\<not> employeesLoading (app S)"
      using el noemp filter_remove_nth_other [OF i, of is_emp_task] T_Page by simp
    show ?thesis
      using T_Page es f pg0 al0 noemp nopage rest el0
      by (simp add: async_inv_def Let_def split: sum.split)
  next
    case (T_More c q)
    from ok T_More have q: "q = paginatedTransactions (app S)" and f: "fetched S \<noteq> []" by simp_all
    with ef have es: "employees (app S) \<noteq> None" by blast
    from pg f have pg1: "paginatedTransactions (app S) = Some (last (fetched S))" by simp
    from i T_More pc have nopage: "filter is_page_task ?r = []"
      by (intro filter_remove_nth_single) simp_all
    from okr es have noemp: "filter is_emp_task ?r = []"
      by (auto intro: no_emp_task_after_load)
    note rest = only_by_employee [OF okr nopage noemp]
    have el0: "\<not> employeesLoading (app S)"
      using el noemp filter_remove_nth_other [OF i, of is_emp_task] T_More by simp
    have cat: "allTransactions (app S) @ page_data (last (fetched S)) = concat (map page_data (fetched S))"
    proof -
      have "concat (map page_data (fetched S))
              = concat (map page_data (butlast (fetched S) @ [last (fetched S)]))"
        using f by simp
      then show ?thesis using al by simp
    qed
    show ?thesis
    proof (cases "fetchTransactionsPage src c")
      case (Inl e)
      with T_More show ?thesis
        using f pg1 al es noemp nopage rest el0 by (simp add: async_inv_def)
    next
      case (Inr p)
      with T_More show ?thesis
        using q f pg1 cat es noemp nopage rest el0 by (simp add: async_inv_def)
    qed
  next
    case (T_ByEmployee e)
    from i T_ByEmployee have "(filter is_page_task ?r = []) = (filter is_page_task (pending S) = [])"
      and "(filter is_emp_task ?r = []) = (filter is_emp_task (pending S) = [])"
      by (simp_all add: filter_remove_nth_other)
    moreover have "length (filter is_page_task ?r) \<le> 1" and "length (filter is_emp_task ?r) \<le> 1"
      using filter_remove_nth [OF i, of is_page_task] filter_remove_nth [OF i, of is_emp_task] pc ec
      by simp_all
    ultimately show ?thesis
      using T_ByEmployee tl el pg al ef okr
      by (cases "fetched S = []") (simp_all add: async_inv_def Let_def split: sum.split)
  qed
qed

lemma async_inv_init: "async_inv sys_init"
  by (simp add: async_inv_def sys_init_def app_init_def)

lemma inv_step: "async_step src True S S' \<Longrightarrow> async_inv S \<Longrightarrow> async_inv S'"
  by (induction rule: async_step.induct) (simp_all add: inv_start_event inv_respond)

lemma reach_inv: "async_reach src True S \<Longrightarrow> async_inv S"
proof (induction rule: async_reach.induct)
  case init
  show ?case by (rule async_inv_init)
next
  case (step S S')
  then show ?case by (blast intro: inv_step)
qed

lemma inv_merged: "async_inv S \<Longrightarrow> merged (app S) = concat (map page_data (fetched S))"
proof -
  assume inv: "async_inv S"
  then have pg: "paginatedTransactions (app S) = (if fetched S = [] then None else Some (last (fetched S)))"
    and al: "allTransactions (app S) = concat (map page_data (butlast (fetched S)))"
    unfolding async_inv_def by blast+
  show ?thesis
  proof (cases "fetched S = []")
    case True
    with pg al show ?thesis by (simp add: merged_def)
  next
    case False
    have "merged (app S) = concat (map page_data (butlast (fetched S) @ [last (fetched S)]))"
      using False pg al by (simp add: merged_def del: append_butlast_last_id)
    also have "\<dots> = concat (map page_data (fetched S))"
      using False by simp
    finally show ?thesis .
  qed
qed

lemma reach_exec_action: "async_reach src g S \<Longrightarrow> async_reach src g (exec_action src g x S)"
proof (cases x)
  case (User ev)
  assume "async_reach src g S"
  with User show ?thesis by (auto intro: async_reach.step async_step.user)
next
  case (Answer i)
  assume "async_reach src g S"
  with Answer show ?thesis by (auto intro: async_reach.step async_step.answer)
qed

lemma reach_exec_actions: "async_reach src g S \<Longrightarrow> async_reach src g (exec_actions src g xs S)"
  by (induction xs arbitrary: S) (simp_all add: reach_exec_action)

lemmas exec_unfolds =
  sys_init_def app_init_def start_defs remove_nth_def transactions_def merged_def
  shouldShowViewMore_def viewMore_disabled_def

subsection \<open>Properties of the interleaved handlers\<close>

text \<open>
  C16. With "View More" clicks delivered only while the button is enabled, in every
  interleaving of events and answers reachable from mount the unfiltered list is
  exactly the concatenation of the pages delivered so far, in delivery order: no page
  is appended twice or lost.
\<close>

theorem gated_no_duplication:
  "async_reach src True S \<Longrightarrow> merged (app S) = concat (map page_data (fetched S))"
  by (intro inv_merged reach_inv)

text \<open>
  C17. With clicks delivered only while the button is enabled, at most one page request
  is in flight in every reachable state, and one is in flight exactly while the page
  hook reports loading.
\<close>

theorem gated_single_page_request:
  assumes "async_reach src True S"
  shows "length (filter is_page_task (pending S)) \<le> 1
         \<and> transactionsLoading (app S) = (filter is_page_task (pending S) \<noteq> [])"
proof -
  from assms have "async_inv S" by (rule reach_inv)
  then show ?thesis unfolding async_inv_def by blast
qed

subsection \<open>Witnesses\<close>

theorem gated_no_duplication_witness:
  "merged (app (exec_actions scenario_source True
      [User Effect, Answer 0, Answer 0, User ClickViewMore, User ClickViewMore, Answer 0, Answer 0]
      sys_init)) = [1, 2, 3]"
proof -
  let ?S = "exec_actions scenario_source True
      [User Effect, Answer 0, Answer 0, User ClickViewMore, User ClickViewMore, Answer 0, Answer 0]
      sys_init"
  have "async_reach scenario_source True ?S" by (intro reach_exec_actions async_reach.init)
  then have "merged (app ?S) = concat (map page_data (fetched ?S))" by (rule gated_no_duplication)
  also have "\<dots> = [1, 2, 3]" by (simp add: exec_unfolds scenario_source_def Let_def)
  finally show ?thesis .
qed

theorem gated_single_page_request_witness:
  "length (filter is_page_task (pending (exec_actions scenario_source True
      [User Effect, Answer 0, Answer 0, User ClickViewMore, User ClickViewMore] sys_init))) \<le> 1
   \<and> transactionsLoading (app (exec_actions scenario_source True
      [User Effect, Answer 0, Answer 0, User ClickViewMore, User ClickViewMore] sys_init))
     = (filter is_page_task (pending (exec_actions scenario_source True
      [User Effect, Answer 0, Answer 0, User ClickViewMore, User ClickViewMore] sys_init)) \<noteq> [])"
  by (intro gated_single_page_request [where src = scenario_source] reach_exec_actions async_reach.init)

end
