(* ===== verification/Liveness.thy ===== *)
theory Liveness
  imports Async
begin

text \<open>
  Progress of the interleaved semantics of theory \<open>Async\<close>: every pending request is
  eventually answered, and once all are answered on a source whose fetches succeed,
  the screen is idle again (no \<open>isLoading\<close>, no hook loading), whatever events and
  interleaving led there, with or without the button's guard. Answering in arrival
  order (\<open>drain\<close>) needs at most two units of fuel per pending request, because only
  the answer to the employee request of \<open>loadAllTransactions\<close> issues a further
  request (the first page), and that one issues none.
\<close>

definition reliable :: "'t source \<Rightarrow> bool" where
  "reliable src \<longleftrightarrow>
     (\<exists>es. listEmployees src = Inr es)
     \<and> (\<forall>c. \<exists>p. fetchTransactionsPage src c = Inr p)
     \<and> (\<forall>i. \<exists>ts. fetchTransactionsForEmployee src i = Inr ts)"

definition ui_idle :: "'t app_state \<Rightarrow> bool" where
  "ui_idle a \<longleftrightarrow>
     \<not> isLoading a \<and> \<not> employeesLoading a \<and> \<not> transactionsLoading a
     \<and> \<not> transactionsByEmployeeLoading a"

fun is_by_task :: "'t task \<Rightarrow> bool" where
  "is_by_task (T_ByEmployee i) = True"
| "is_by_task (T_Employees c) = False"
| "is_by_task (T_Page c) = False"
| "is_by_task (T_More c q) = False"

fun task_weight :: "'t task \<Rightarrow> nat" where
  "task_weight (T_Employees c) = 2"
| "task_weight (T_Page c) = 1"
| "task_weight (T_ByEmployee i) = 1"
| "task_weight (T_More c q) = 1"

text \<open>
  Each loading flag is set only while a request that will clear it is pending;
  \<open>isLoading\<close> only while some request is pending.
\<close>

definition idle_inv :: "'t sys \<Rightarrow> bool" where
  "idle_inv S \<longleftrightarrow>
     (isLoading (app S) \<longrightarrow> pending S \<noteq> [])
     \<and> (employeesLoading (app S) \<longrightarrow> filter is_emp_task (pending S) \<noteq> [])
     \<and> (transactionsLoading (app S) \<longrightarrow> filter is_page_task (pending S) \<noteq> [])
     \<and> (transactionsByEmployeeLoading (app S) \<longrightarrow> filter is_by_task (pending S) \<noteq> [])"

lemma hook_resolve_loading [simp]: "hook_loading (hook_resolve r h) = False"
  by (cases r) simp_all

lemma respond_pending:
  "pending (respond src t S) =
     pending S @ (case t of
                    T_Employees c \<Rightarrow> (case listEmployees src of Inl e \<Rightarrow> [] | Inr es \<Rightarrow> [T_Page c])
                  | _ \<Rightarrow> [])"
  by (cases t) (simp_all add: Let_def split: sum.splits)

lemma task_weight_pos: "0 < task_weight t"
  by (cases t) simp_all

lemma drain_empties:
  "sum_list (map task_weight (pending S)) \<le> n \<Longrightarrow> pending (drain src n S) = []"
proof (induction n arbitrary: S)
  case 0
  then show ?case using task_weight_pos [of "hd (pending S)"] by (cases "pending S") simp_all
next
  case (Suc n)
  show ?case
  proof (cases "pending S")
    case Nil
    then show ?thesis by simp
  next
    case (Cons t ts)
    note pend = respond_pending [of src t "S\<lparr>pending := ts\<rparr>"]
    have "sum_list (map task_weight (pending (respond src t (S\<lparr>pending := ts\<rparr>))))
          \<le> sum_list (map task_weight ts) + task_weight t - 1"
      unfolding pend by (cases t) (simp_all split: sum.splits)
    with Suc.prems Cons have "sum_list (map task_weight (pending (respond src t (S\<lparr>pending := ts\<rparr>)))) \<le> n"
      by simp
    with Cons show ?thesis by (simp add: Suc.IH)
  qed
qed

lemma weight_le_twice: "sum_list (map task_weight ts) \<le> 2 * length ts"
proof (induction ts)
  case (Cons t ts)
  then show ?case by (cases t) simp_all
qed simp

lemma idle_respond:
  assumes inv: "idle_inv S" and rel: "reliable src" and split: "pending S = xs @ t # ys"
  shows "idle_inv (respond src t (S\<lparr>pending := xs @ ys\<rparr>))"
proof (cases t)
  case (T_Employees c)
  from rel obtain es where "listEmployees src = Inr es" by (auto simp: reliable_def)
  with inv split T_Employees show ?thesis by (auto simp: idle_inv_def Let_def)
next
  case (T_Page c)
  from rel obtain p where "fetchTransactionsPage src c = Inr p" by (auto simp: reliable_def)
  with inv split T_Page show ?thesis by (auto simp: idle_inv_def Let_def)
next
  case (T_ByEmployee i)
  from rel obtain ts where "fetchTransactionsForEmployee src i = Inr ts" by (auto simp: reliable_def)
  with inv split T_ByEmployee show ?thesis by (auto simp: idle_inv_def Let_def)
next
  case (T_More c q)
  from rel obtain p where "fetchTransactionsPage src c = Inr p" by (auto simp: reliable_def)
  with inv split T_More show ?thesis by (auto simp: idle_inv_def Let_def split: option.splits)
qed

lemma idle_start_loadAll: "idle_inv S \<Longrightarrow> idle_inv (start_loadAll snap S)"
  by (auto simp: idle_inv_def start_loadAll_def)

lemma idle_start_event: "idle_inv S \<Longrightarrow> idle_inv (start_event g ev S)"
proof (cases ev)
  case Effect
  assume "idle_inv S"
  with Effect show ?thesis by (simp add: idle_start_loadAll)
next
  case (SelectEmployee v)
  assume inv: "idle_inv S"
  then have c: "idle_inv (start_loadAll (app S) (S\<lparr>app := (app S)\<lparr>employeeId := None\<rparr>\<rparr>))"
    by (intro idle_start_loadAll) (simp add: idle_inv_def)
  from inv have b: "idle_inv (start_byEmployee i S)" for i
    by (auto simp: start_byEmployee_def idle_inv_def)
  from SelectEmployee inv c b show ?thesis by (simp split: option.splits)
next
  case ClickViewMore
  assume "idle_inv S"
  with ClickViewMore show ?thesis by (auto simp: idle_inv_def start_loadMore_def)
qed

lemma idle_init: "idle_inv sys_init"
  by (simp add: idle_inv_def sys_init_def app_init_def)

lemma reach_idle: "async_reach src g S \<Longrightarrow> reliable src \<Longrightarrow> idle_inv S"
proof (induction rule: async_reach.induct)
  case init
  show ?case by (rule idle_init)
next
  case (step S S')
  then have inv: "idle_inv S" by simp
  from step.hyps(2) show ?case
  proof cases
    case (user ev)
    with inv show ?thesis by (simp add: idle_start_event)
  next
    case (answer i)
    have "pending S = take i (pending S) @ pending S ! i # drop (Suc i) (pending S)"
      using answer(2) by (rule remove_nth_split)
    with inv step.prems answer(1) show ?thesis by (simp add: idle_respond remove_nth_def)
  qed
qed

lemma drain_idle: "idle_inv S \<Longrightarrow> reliable src \<Longrightarrow> idle_inv (drain src n S)"
proof (induction n arbitrary: S)
  case (Suc n)
  show ?case
  proof (cases "pending S")
    case (Cons t ts)
    with Suc.prems have "idle_inv (respond src t (S\<lparr>pending := [] @ ts\<rparr>))"
      by (intro idle_respond) simp_all
    with Suc Cons show ?thesis by simp
  qed (simp add: Suc.prems)
qed simp

lemma reach_drain: "async_reach src g S \<Longrightarrow> async_reach src g (drain src n S)"
proof (induction n arbitrary: S)
  case (Suc n)
  show ?case
  proof (cases "pending S")
    case (Cons t ts)
    have "async_step src g S (respond src (pending S ! 0) (S\<lparr>pending := remove_nth 0 (pending S)\<rparr>))"
      using Cons by (intro async_step.answer) simp
    with Suc.prems have "async_reach src g (respond src t (S\<lparr>pending := ts\<rparr>))"
      using Cons by (simp add: remove_nth_def async_reach.step)
    with Suc.IH Cons show ?thesis by simp
  qed (simp add: Suc.prems)
qed simp

subsection \<open>Progress\<close>

text \<open>
  C19. On a source whose fetches all succeed, from every state reachable under any
  interleaving of events and answers (with or without the button's guard), answering
  the pending requests in arrival order, with two units of fuel per request, answers
  them all and reaches a reachable state where the screen is idle: \<open>isLoading\<close> is
  false and no hook is loading, so the select and "View More" are enabled again.
\<close>

theorem answers_return_to_idle:
  assumes rel: "reliable src" and reach: "async_reach src g S"
  shows "pending (drain src (2 * length (pending S)) S) = []
         \<and> ui_idle (app (drain src (2 * length (pending S)) S))
         \<and> async_reach src g (drain src (2 * length (pending S)) S)"
proof -
  let ?D = "drain src (2 * length (pending S)) S"
  have e: "pending ?D = []"
    using weight_le_twice [of "pending S"] by (rule drain_empties)
  have "idle_inv ?D" using reach_idle [OF reach rel] rel by (rule drain_idle)
  with e have "ui_idle (app ?D)" by (simp add: idle_inv_def ui_idle_def)
  with e reach_drain [OF reach] show ?thesis by blast
qed

theorem answers_return_to_idle_witness:
  "length (pending (exec_actions (mock_source [ann_lee] (\<lambda>t::nat. ''1'') 2 [1, 2, 3]) False
       [User Effect, User (SelectEmployee (Some ann_lee)), User ClickViewMore] sys_init)) = 2
   \<and> pending (drain (mock_source [ann_lee] (\<lambda>t::nat. ''1'') 2 [1, 2, 3]) 4
       (exec_actions (mock_source [ann_lee] (\<lambda>t::nat. ''1'') 2 [1, 2, 3]) False
          [User Effect, User (SelectEmployee (Some ann_lee)), User ClickViewMore] sys_init)) = []
   \<and> ui_idle (app (drain (mock_source [ann_lee] (\<lambda>t::nat. ''1'') 2 [1, 2, 3]) 4
       (exec_actions (mock_source [ann_lee] (\<lambda>t::nat. ''1'') 2 [1, 2, 3]) False
          [User Effect, User (SelectEmployee (Some ann_lee)), User ClickViewMore] sys_init)))"
proof -
  let ?src = "mock_source [ann_lee] (\<lambda>t::nat. ''1'') 2 [1, 2, 3]"
  let ?S = "exec_actions ?src False [User Effect, User (SelectEmployee (Some ann_lee)), User ClickViewMore] sys_init"
  have rel: "reliable ?src" by (simp add: reliable_def mock_source_def)
  have reach: "async_reach ?src False ?S"
    by (rule reach_exec_actions [OF async_reach.init])
  have l: "length (pending ?S) = 2"
    by (simp add: sys_init_def app_init_def start_defs ann_lee_def shouldShowViewMore_def)
  from answers_return_to_idle [OF rel reach] l show ?thesis by simp
qed

end
