(* ===== verification/Effect.thy ===== *)
theory Effect
  imports Async
begin

text \<open>
  When the mount effect of \<open>src/App.tsx\<close> (lines 48-52) runs. React runs an effect
  after a render whose dependency values differ from those of the previous render
  (and after the first render). The dependencies are \<open>employees\<close>,
  \<open>employeesLoading\<close>, \<open>transactionsLoading\<close> and \<open>loadAllTransactions\<close>, whose identity
  changes only with \<open>employees\<close> and \<open>employeesLoading\<close> (its \<open>useCallback\<close> list; the
  hooks' fetch functions are stable), so \<open>effect_deps\<close> is the triple of the first
  three. A rendered system is the interleaved system of theory \<open>Async\<close> with the
  dependencies of the last committed render; \<open>commit\<close> renders after each step and
  runs the effect when the dependencies changed. When the effect starts
  \<open>loadAllTransactions\<close> it sets \<open>employeesLoading\<close>, so the render that follows fires
  the effect again with a false condition; \<open>commit\<close> records that render's
  dependencies directly (lemma \<open>effect_refire_noop\<close>).
\<close>

type_synonym effect_deps_t = "employee list option \<times> bool \<times> bool"

type_synonym 't rsys = "'t sys \<times> effect_deps_t option"

definition effect_deps :: "'t app_state \<Rightarrow> effect_deps_t" where
  "effect_deps a = (employees a, employeesLoading a, transactionsLoading a)"

definition commit :: "bool \<Rightarrow> 't rsys \<Rightarrow> 't rsys" where
  "commit g X =
     (let S = fst X in
      if snd X = Some (effect_deps (app S)) then X
      else let S' = start_event g Effect S in (S', Some (effect_deps (app S'))))"

definition rsys_init :: "bool \<Rightarrow> 't rsys" where
  "rsys_init g = commit g (sys_init, None)"

inductive react_step :: "'t source \<Rightarrow> bool \<Rightarrow> 't rsys \<Rightarrow> 't rsys \<Rightarrow> bool" for src g where
  user: "react_step src g X (commit g (start_event g ev (fst X), snd X))"
| answer: "i < length (pending (fst X)) \<Longrightarrow>
     react_step src g X
       (commit g (respond src (pending (fst X) ! i)
                    ((fst X)\<lparr>pending := remove_nth i (pending (fst X))\<rparr>), snd X))"

inductive react_reach :: "'t source \<Rightarrow> bool \<Rightarrow> 't rsys \<Rightarrow> bool" for src g where
  init: "react_reach src g (rsys_init g)"
| step: "react_reach src g X \<Longrightarrow> react_step src g X X' \<Longrightarrow> react_reach src g X'"

text \<open>Answering the oldest pending request, \<open>n\<close> times, with a render after each.\<close>

fun react_answers :: "'t source \<Rightarrow> bool \<Rightarrow> nat \<Rightarrow> 't rsys \<Rightarrow> 't rsys" where
  "react_answers src g 0 X = X"
| "react_answers src g (Suc n) X =
     (case pending (fst X) of
        [] \<Rightarrow> X
      | t # ts \<Rightarrow> react_answers src g n (commit g (respond src t ((fst X)\<lparr>pending := ts\<rparr>), snd X)))"

lemma effect_refire_noop:
  "start_event g Effect S \<noteq> S \<Longrightarrow>
   start_event g Effect (start_event g Effect S) = start_event g Effect S"
  by (auto simp: start_loadAll_def)

lemma react_answers_reach:
  "react_reach src g X \<Longrightarrow> react_reach src g (react_answers src g n X)"
proof (induction n arbitrary: X)
  case (Suc n)
  show ?case
  proof (cases "pending (fst X)")
    case (Cons t ts)
    have "react_step src g X
            (commit g (respond src (pending (fst X) ! 0)
               ((fst X)\<lparr>pending := remove_nth 0 (pending (fst X))\<rparr>), snd X))"
      using Cons by (intro react_step.answer) simp
    with Suc.prems Cons have "react_reach src g (commit g (respond src t ((fst X)\<lparr>pending := ts\<rparr>), snd X))"
      by (simp add: remove_nth_def react_reach.step)
    with Suc.IH Cons show ?thesis by simp
  qed (simp add: Suc.prems)
qed simp

lemma rsys_init_simps:
  "pending (fst (rsys_init g)) = [T_Employees None]"
  "app (fst (rsys_init g)) = app_init\<lparr>isLoading := True, employees_hook := hook_start hook_init\<rparr>"
  "snd (rsys_init g) = Some (None, True, False)"
  by (simp_all add: rsys_init_def commit_def sys_init_def start_loadAll_def effect_deps_def app_init_def)

lemma failed_employees_fixpoint:
  assumes "listEmployees (src :: 't source) = Inl e"
  shows "commit g (respond src (T_Employees None) ((fst (rsys_init g))\<lparr>pending := []\<rparr>),
           snd (rsys_init g :: 't rsys))
         = rsys_init g"
proof -
  have "fst (rsys_init g) = \<lparr>app = app_init\<lparr>isLoading := True, employees_hook := hook_start hook_init\<rparr>,
          pending = [T_Employees None], fetched = []\<rparr>"
    by (simp add: rsys_init_def commit_def sys_init_def start_loadAll_def effect_deps_def app_init_def)
  with assms show ?thesis
    by (simp add: rsys_init_simps commit_def effect_deps_def start_loadAll_def app_init_def
          hook_start_def hook_init_def prod_eq_iff)
qed

lemma failed_employees_answers:
  "listEmployees (src :: 't source) = Inl e \<Longrightarrow> react_answers src g n (rsys_init g) = rsys_init g"
proof (induction n)
  case (Suc n)
  have "react_answers src g (Suc n) (rsys_init g)
        = react_answers src g n (commit g (respond src (T_Employees None)
            ((fst (rsys_init g))\<lparr>pending := []\<rparr>), snd (rsys_init g :: 't rsys)))"
    by (simp only: react_answers.simps rsys_init_simps(1) list.case)
  also have "\<dots> = react_answers src g n (rsys_init g)"
    by (simp only: failed_employees_fixpoint [OF Suc.prems])
  also have "\<dots> = rsys_init g" using Suc.prems by (rule Suc.IH)
  finally show ?case .
qed simp

subsection \<open>A failing employee list is requested forever\<close>

text \<open>
  C20. When the employee list cannot be fetched, the mount effect re-fires after every
  failed answer (the hook's \<open>loading\<close> flag, one of its dependencies, falls back to
  false): however many answers arrive, in a run reachable from mount, a new employee
  request is pending, \<open>isLoading\<close> stays set and the employees are never loaded. The
  specification requires that no action is retried automatically.
\<close>

theorem failed_employees_retry_forever:
  assumes "listEmployees src = Inl e"
  shows "react_reach src g (react_answers src g n (rsys_init g))
         \<and> pending (fst (react_answers src g n (rsys_init g))) = [T_Employees None]
         \<and> isLoading (app (fst (react_answers src g n (rsys_init g))))
         \<and> employees (app (fst (react_answers src g n (rsys_init g)))) = None"
proof -
  have "react_reach src g (react_answers src g n (rsys_init g))"
    by (intro react_answers_reach react_reach.init)
  with failed_employees_answers [OF assms] show ?thesis
    by (simp add: rsys_init_simps)
qed

theorem failed_employees_retry_forever_witness:
  "react_reach (scenario_source\<lparr>listEmployees := Inl FetchError\<rparr>) True
      (react_answers (scenario_source\<lparr>listEmployees := Inl FetchError\<rparr>) True 3 (rsys_init True))
   \<and> pending (fst (react_answers (scenario_source\<lparr>listEmployees := Inl FetchError\<rparr>) True 3
        (rsys_init True))) = [T_Employees None]"
  using failed_employees_retry_forever [of "scenario_source\<lparr>listEmployees := Inl FetchError\<rparr>" FetchError True 3]
  by simp

end
