(* ===== verification/InputCheckbox.thy ===== *)
theory InputCheckbox
  imports Prelude
begin

text \<open>
  The presentational checkbox of \<open>src/components/InputCheckbox/index.tsx\<close>. Its props
  are an id, an optional \<open>checked\<close> (default \<open>false\<close>) and an optional \<open>disabled\<close>; it
  renders a label whose classes follow \<open>classNames\<close> and which points at the input
  (\<open>htmlFor\<close>), and an input with the same id. \<open>handleChange\<close> calls \<open>onChange\<close> with
  the negation of \<open>checked\<close>. A click reaches \<open>handleChange\<close> only when the input is
  not disabled (the DOM fires no change event on a disabled input). The parent that
  owns the value stores what \<open>onChange\<close> receives (\<open>checkbox_toggle\<close>).
\<close>

record checkbox_props =
  cb_id :: string
  cb_checked :: "bool option"
  cb_disabled :: "bool option"

record checkbox_view =
  container_testid :: string
  label_classes :: "string list"
  label_htmlFor :: string
  input_id :: string
  input_checked :: bool
  input_disabled :: bool

definition checked_of :: "checkbox_props \<Rightarrow> bool" where
  "checked_of p = (case cb_checked p of None \<Rightarrow> False | Some b \<Rightarrow> b)"

definition disabled_of :: "checkbox_props \<Rightarrow> bool" where
  "disabled_of p = (case cb_disabled p of None \<Rightarrow> False | Some b \<Rightarrow> b)"

definition handleChange :: "checkbox_props \<Rightarrow> bool" where
  "handleChange p = (\<not> checked_of p)"

definition classNames :: "string \<Rightarrow> (string \<times> bool) list \<Rightarrow> string list" where
  "classNames base conds = base # map fst (filter snd conds)"

definition checkbox_dom_id :: "string \<Rightarrow> string" where
  "checkbox_dom_id i = ''RampInputCheckbox-'' @ i"

definition render_checkbox :: "checkbox_props \<Rightarrow> checkbox_view" where
  "render_checkbox p =
     \<lparr>container_testid = checkbox_dom_id (cb_id p),
      label_classes = classNames ''RampInputCheckbox--label''
        [(''RampInputCheckbox--label-checked'', checked_of p),
         (''RampInputCheckbox--label-disabled'', disabled_of p)],
      label_htmlFor = checkbox_dom_id (cb_id p),
      input_id = checkbox_dom_id (cb_id p),
      input_checked = checked_of p,
      input_disabled = disabled_of p\<rparr>"

definition checkbox_click :: "checkbox_props \<Rightarrow> bool option" where
  "checkbox_click p = (if disabled_of p then None else Some (handleChange p))"

definition checkbox_toggle :: "checkbox_props \<Rightarrow> checkbox_props" where
  "checkbox_toggle p =
     (case checkbox_click p of None \<Rightarrow> p | Some b \<Rightarrow> p\<lparr>cb_checked := Some b\<rparr>)"

lemma checked_of_update [simp]: "checked_of (p\<lparr>cb_checked := Some b\<rparr>) = b"
  by (simp add: checked_of_def)

lemma disabled_of_update [simp]: "disabled_of (p\<lparr>cb_checked := x\<rparr>) = disabled_of p"
  by (simp add: disabled_of_def)

text \<open>
  C14. Clicking an enabled checkbox whose parent stores the value passed to
  \<open>onChange\<close> flips its checked state, a second click restores it, and a disabled
  checkbox ignores the click.
\<close>

theorem checkbox_click_roundtrip:
  "checked_of (checkbox_toggle p) = (if disabled_of p then checked_of p else \<not> checked_of p)
   \<and> checkbox_toggle (checkbox_toggle p) = (if disabled_of p then p else p\<lparr>cb_checked := Some (checked_of p)\<rparr>)"
  by (simp add: checkbox_toggle_def checkbox_click_def handleChange_def)

text \<open>
  C15. The rendered label points at the rendered input (same DOM id, also the test id
  of the container), and it carries the checked class exactly when the input is
  checked and the disabled class exactly when the input is disabled.
\<close>

theorem checkbox_label_matches_input:
  "label_htmlFor (render_checkbox p) = input_id (render_checkbox p)
   \<and> container_testid (render_checkbox p) = input_id (render_checkbox p)
   \<and> (''RampInputCheckbox--label-checked'' \<in> set (label_classes (render_checkbox p))
        \<longleftrightarrow> input_checked (render_checkbox p))
   \<and> (''RampInputCheckbox--label-disabled'' \<in> set (label_classes (render_checkbox p))
        \<longleftrightarrow> input_disabled (render_checkbox p))"
  by (simp add: render_checkbox_def classNames_def)

theorem checkbox_click_roundtrip_witness:
  "checked_of (checkbox_toggle \<lparr>cb_id = ''a'', cb_checked = None, cb_disabled = None\<rparr>) = True
   \<and> checkbox_toggle (checkbox_toggle \<lparr>cb_id = ''a'', cb_checked = None, cb_disabled = None\<rparr>)
     = \<lparr>cb_id = ''a'', cb_checked = Some False, cb_disabled = None\<rparr>"
  using checkbox_click_roundtrip [of "\<lparr>cb_id = ''a'', cb_checked = None, cb_disabled = None\<rparr>"]
  by (simp add: checked_of_def disabled_of_def)

theorem checkbox_label_matches_input_witness:
  "label_htmlFor (render_checkbox \<lparr>cb_id = ''a'', cb_checked = Some True, cb_disabled = None\<rparr>)
     = ''RampInputCheckbox-a''
   \<and> ''RampInputCheckbox--label-checked''
       \<in> set (label_classes (render_checkbox \<lparr>cb_id = ''a'', cb_checked = Some True, cb_disabled = None\<rparr>))
   \<and> ''RampInputCheckbox--label-disabled''
       \<notin> set (label_classes (render_checkbox \<lparr>cb_id = ''a'', cb_checked = Some True, cb_disabled = None\<rparr>))"
  using checkbox_label_matches_input [of "\<lparr>cb_id = ''a'', cb_checked = Some True, cb_disabled = None\<rparr>"]
  by (simp add: render_checkbox_def checked_of_def disabled_of_def checkbox_dom_id_def)

end
