(* ===== verification/ViewModel.thy ===== *)
theory ViewModel
  imports App
begin

text \<open>
  The abstract view model of the specification (sections 3 and 4.1) and the refinement
  of the orchestrator of \<open>src/App.tsx\<close> into it. The abstract state keeps the list of
  pages fetched so far in fetch order, the employee filter, the employee-scoped cache
  and the employee list; the displayed list is the concatenation of the pages in
  unfiltered mode (the guarantee of \<open>initialLoad\<close> and \<open>loadMoreTransactions\<close>) and the
  scoped cache in filtered mode. The abstract actions follow the specification's
  failure semantics: a failed fetch leaves the state untouched. The refinement
  relation maps the code's \<open>allTransactions\<close> to the pages but the last and the
  paginated hook's page to the last page; it holds between quiescent states (no flag
  set), and every handler run that completes without a rejected fetch preserves it.
\<close>

record 't view_model =
  vm_employees :: "employee list option"
  vm_pages :: "'t page list"
  vm_filter :: "string option"
  vm_scoped :: "'t list option"

definition vm_init :: "'t view_model" where
  "vm_init = \<lparr>vm_employees = None, vm_pages = [], vm_filter = None, vm_scoped = None\<rparr>"

definition vm_displayed :: "'t view_model \<Rightarrow> 't list option" where
  "vm_displayed v =
     (case vm_filter v of None \<Rightarrow> Some (concat (map page_data (vm_pages v))) | Some i \<Rightarrow> vm_scoped v)"

definition vm_canLoadMore :: "'t view_model \<Rightarrow> bool" where
  "vm_canLoadMore v =
     (vm_filter v = None \<and> vm_pages v \<noteq> [] \<and> nextPage (last (vm_pages v)) \<noteq> None)"

definition vm_filterOptions :: "'t view_model \<Rightarrow> employee list" where
  "vm_filterOptions v = (case vm_employees v of None \<Rightarrow> [] | Some es \<Rightarrow> EMPTY_EMPLOYEE # es)"

definition vm_initialLoad :: "'t source \<Rightarrow> 't view_model \<Rightarrow> 't view_model" where
  "vm_initialLoad src v =
     (if vm_employees v \<noteq> None then v
      else case listEmployees src of
             Inl e \<Rightarrow> v
           | Inr es \<Rightarrow> (case fetchTransactionsPage src None of
                          Inl e \<Rightarrow> v
                        | Inr p \<Rightarrow> v\<lparr>vm_employees := Some es, vm_pages := [p]\<rparr>))"

definition vm_selectEmployee :: "'t source \<Rightarrow> employee option \<Rightarrow> 't view_model \<Rightarrow> 't view_model" where
  "vm_selectEmployee src x v =
     (case x of
        None \<Rightarrow> v
      | Some e \<Rightarrow>
          if emp_id e = [] then vm_initialLoad src (v\<lparr>vm_filter := None\<rparr>)
          else case fetchTransactionsForEmployee src (emp_id e) of
                 Inl err \<Rightarrow> v
               | Inr ts \<Rightarrow> v\<lparr>vm_filter := Some (emp_id e), vm_scoped := Some ts\<rparr>)"

definition vm_loadMore :: "'t source \<Rightarrow> 't view_model \<Rightarrow> 't view_model" where
  "vm_loadMore src v =
     (if vm_canLoadMore v then
        case fetchTransactionsPage src (nextPage (last (vm_pages v))) of
          Inl e \<Rightarrow> v
        | Inr p \<Rightarrow> v\<lparr>vm_pages := vm_pages v @ [p]\<rparr>
      else v)"

fun vm_step :: "'t source \<Rightarrow> ui_event \<Rightarrow> 't view_model \<Rightarrow> 't view_model" where
  "vm_step src Effect v = vm_initialLoad src v"
| "vm_step src (SelectEmployee x) v = vm_selectEmployee src x v"
| "vm_step src ClickViewMore v = vm_loadMore src v"

fun vm_run :: "'t source \<Rightarrow> ui_event list \<Rightarrow> 't view_model \<Rightarrow> 't view_model" where
  "vm_run src [] v = v"
| "vm_run src (e # es) v = vm_run src es (vm_step src e v)"

text \<open>
  The code's runs that complete: \<open>app_exec\<close> runs the events in order and is
  \<open>None\<close> as soon as a handler's promise rejects.
\<close>

fun app_exec :: "'t source \<Rightarrow> ui_event list \<Rightarrow> 't app_state \<Rightarrow> 't app_state option" where
  "app_exec src [] s = Some s"
| "app_exec src (e # es) s =
     (case app_dispatch src e s of Done s' \<Rightarrow> app_exec src es s' | Raised err s' \<Rightarrow> None)"

text \<open>
  A source whose page answers never carry the page number 0 as next cursor (the code
  tests the cursor for truthiness, so such a cursor would stop the chain; see the
  claim on the zero cursor in theory \<open>App\<close>).
\<close>

definition positive_cursors :: "'t source \<Rightarrow> bool" where
  "positive_cursors src \<longleftrightarrow> (\<forall>c p. fetchTransactionsPage src c = Inr p \<longrightarrow> nextPage p \<noteq> Some 0)"

definition vm_rel :: "'t app_state \<Rightarrow> 't view_model \<Rightarrow> bool" where
  "vm_rel s v \<longleftrightarrow>
     employees s = vm_employees v
     \<and> employeeId s = vm_filter v \<and> vm_filter v \<noteq> Some []
     \<and> transactionsByEmployee s = vm_scoped v
     \<and> paginatedTransactions s = (if vm_pages v = [] then None else Some (last (vm_pages v)))
     \<and> allTransactions s = concat (map page_data (butlast (vm_pages v)))
     \<and> (vm_employees v = None \<longrightarrow> vm_pages v = [])
     \<and> (vm_pages v \<noteq> [] \<longrightarrow> nextPage (last (vm_pages v)) \<noteq> Some 0)
     \<and> \<not> isLoading s \<and> \<not> employeesLoading s \<and> \<not> transactionsLoading s
     \<and> \<not> transactionsByEmployeeLoading s"

lemma vm_rel_init: "vm_rel app_init vm_init"
  by (simp add: vm_rel_def app_init_def vm_init_def)

lemma vm_rel_observe:
  assumes "vm_rel s v"
  shows "transactions s = vm_displayed v \<and> shouldShowViewMore s = vm_canLoadMore v
         \<and> select_items s = vm_filterOptions v \<and> \<not> select_isLoading s"
proof -
  have m: "merged s = concat (map page_data (vm_pages v))"
  proof (cases "vm_pages v = []")
    case True with assms show ?thesis by (simp add: vm_rel_def merged_def)
  next
    case False
    with assms show ?thesis by (simp add: vm_rel_def merged_def concat_map_butlast_last)
  qed
  have f: "js_truthy_str (employeeId s) = (vm_filter v \<noteq> None)"
    using assms by (cases "vm_filter v") (auto simp: vm_rel_def)
  have t: "transactions s = vm_displayed v"
    using assms m f by (cases "vm_filter v") (simp_all add: vm_rel_def transactions_def vm_displayed_def)
  have c: "shouldShowViewMore s = vm_canLoadMore v"
    using assms f by (simp add: vm_rel_def shouldShowViewMore_def vm_canLoadMore_def)
  have i: "select_items s = vm_filterOptions v"
    using assms by (simp add: vm_rel_def select_items_def vm_filterOptions_def)
  have l: "\<not> select_isLoading s"
    using assms by (simp add: vm_rel_def select_isLoading_def)
  from t c i l show ?thesis by blast
qed

text \<open>Simulation, one lemma per handler of the code.\<close>

lemma rel_loadAll:
  assumes rel: "vm_rel s v" and pos: "positive_cursors src"
    and snap: "employees snap = employees s" "employeesLoading snap = employeesLoading s"
      "paginatedTransactions snap = paginatedTransactions s"
    and run: "loadAllTransactions src snap s = Done s'"
  shows "vm_rel s' (vm_initialLoad src v)"
proof (cases "employees s")
  case (Some es)
  with snap run have "s' = s" by (simp add: loadAllTransactions_def)
  moreover from Some rel have "vm_employees v = Some es" by (simp add: vm_rel_def)
  then have "vm_initialLoad src v = v" by (simp add: vm_initialLoad_def)
  ultimately show ?thesis using rel by simp
next
  case None
  with rel have pg: "paginatedTransactions s = None" and v: "vm_employees v = None" "vm_pages v = []"
    by (simp_all add: vm_rel_def)
  obtain es where es: "listEmployees src = Inr es"
    using run None snap rel by (cases "listEmployees src")
      (simp_all add: loadAllTransactions_def fetchEmployees_Inl vm_rel_def)
  obtain p where p: "fetchTransactionsPage src None = Inr p"
    using run None snap pg rel es by (cases "fetchTransactionsPage src None")
      (simp_all add: loadAllTransactions_def fetchEmployees_Inr fetchPaginatedTransactions_Inl vm_rel_def)
  from pos p have "nextPage p \<noteq> Some 0" by (simp add: positive_cursors_def)
  have "s' = s\<lparr>employees_hook := \<lparr>hook_data = Some es, hook_loading = False\<rparr>,
      paginated_hook := \<lparr>hook_data = Some p, hook_loading = False\<rparr>, isLoading := False\<rparr>"
    using run None snap pg rel es p by (simp add: loadAllTransactions_def fetch_results vm_rel_def)
  with \<open>nextPage p \<noteq> Some 0\<close> rel es p v show ?thesis
    by (simp add: vm_initialLoad_def vm_rel_def)
qed

lemma rel_loadByEmployee:
  assumes rel: "vm_rel s v" and i: "i \<noteq> []"
    and run: "loadTransactionsByEmployee src i s = Done s'"
  shows "\<exists>ts. fetchTransactionsForEmployee src i = Inr ts
           \<and> vm_rel s' (v\<lparr>vm_filter := Some i, vm_scoped := Some ts\<rparr>)"
proof (cases "fetchTransactionsForEmployee src i")
  case (Inl e)
  with run show ?thesis by (simp add: loadTransactionsByEmployee_def fetchTransactionsByEmployee_Inl)
next
  case (Inr ts)
  with run have "s' = s\<lparr>employeeId := Some i,
      by_employee_hook := \<lparr>hook_data = Some ts, hook_loading = False\<rparr>, isLoading := False\<rparr>"
    by (simp add: loadTransactionsByEmployee_def fetchTransactionsByEmployee_Inr)
  with rel i Inr show ?thesis by (simp add: vm_rel_def)
qed

lemma rel_loadMore:
  assumes rel: "vm_rel s v" and pos: "positive_cursors src"
    and run: "app_dispatch src ClickViewMore s = Done s'"
  shows "vm_rel s' (vm_loadMore src v)"
proof (cases "vm_canLoadMore v")
  case False
  with vm_rel_observe [OF rel] run rel show ?thesis by (simp add: vm_loadMore_def)
next
  case True
  let ?q = "last (vm_pages v)"
  from True rel have ne: "vm_pages v \<noteq> []" and pg: "paginatedTransactions s = Some ?q"
    and c: "js_truthy_nat (nextPage ?q)" and en: "shouldShowViewMore s \<and> \<not> viewMore_disabled s"
    using vm_rel_observe [OF rel]
    by (auto simp: vm_canLoadMore_def vm_rel_def viewMore_disabled_def js_truthy_nat_def
          split: option.splits)
  obtain p where p: "fetchTransactionsPage src (nextPage ?q) = Inr p"
    using run en pg c by (cases "fetchTransactionsPage src (nextPage ?q)")
      (simp_all add: loadMoreTransactions_def fetchPaginatedTransactions_Inl)
  from pos p have p0: "nextPage p \<noteq> Some 0" by (simp add: positive_cursors_def)
  have s': "s' = s\<lparr>paginated_hook := \<lparr>hook_data = Some p, hook_loading = False\<rparr>,
             isLoading := False, allTransactions := allTransactions s @ page_data ?q\<rparr>"
    using run en loadMore_Inr [OF pg c p] by simp
  from True p have "vm_loadMore src v = v\<lparr>vm_pages := vm_pages v @ [p]\<rparr>"
    by (simp add: vm_loadMore_def)
  with s' rel ne p0 show ?thesis
    by (simp add: vm_rel_def concat_map_butlast_last)
qed

lemma rel_dispatch:
  assumes rel: "vm_rel s v" and pos: "positive_cursors src"
    and run: "app_dispatch src ev s = Done s'"
  shows "vm_rel s' (vm_step src ev v)"
proof (cases ev)
  case Effect
  from rel have "mountEffect src s = loadAllTransactions src s s"
    by (simp add: mountEffect_def loadAllTransactions_def vm_rel_def)
  with Effect run have "loadAllTransactions src s s = Done s'" by simp
  with rel pos Effect show ?thesis by (simp add: rel_loadAll)
next
  case (SelectEmployee x)
  show ?thesis
  proof (cases x)
    case None
    with SelectEmployee run rel show ?thesis
      by (simp add: handleEmployeeChange_def vm_selectEmployee_def)
  next
    case (Some e)
    show ?thesis
    proof (cases "emp_id e = []")
      case True
      from rel have r1: "vm_rel (s\<lparr>employeeId := None\<rparr>) (v\<lparr>vm_filter := None\<rparr>)"
        by (simp add: vm_rel_def)
      from SelectEmployee Some True run
      have r2: "loadAllTransactions src s (s\<lparr>employeeId := None\<rparr>) = Done s'"
        by (simp add: handleEmployeeChange_def)
      have "vm_rel s' (vm_initialLoad src (v\<lparr>vm_filter := None\<rparr>))"
        by (rule rel_loadAll [OF r1 pos _ _ _ r2]) simp_all
      with SelectEmployee Some True show ?thesis by (simp add: vm_selectEmployee_def)
    next
      case False
      with SelectEmployee Some run
      have "loadTransactionsByEmployee src (emp_id e) s = Done s'"
        by (simp add: handleEmployeeChange_def)
      from rel_loadByEmployee [OF rel False this] obtain ts
        where "fetchTransactionsForEmployee src (emp_id e) = Inr ts"
          and "vm_rel s' (v\<lparr>vm_filter := Some (emp_id e), vm_scoped := Some ts\<rparr>)"
        by blast
      with SelectEmployee Some False show ?thesis by (simp add: vm_selectEmployee_def)
    qed
  qed
next
  case ClickViewMore
  with rel pos run show ?thesis by (simp add: rel_loadMore)
qed

lemma rel_exec:
  "vm_rel s v \<Longrightarrow> positive_cursors src \<Longrightarrow> app_exec src evs s = Some s' \<Longrightarrow>
   vm_rel s' (vm_run src evs v)"
proof (induction evs arbitrary: s v)
  case Nil
  then show ?case by simp
next
  case (Cons ev evs)
  from Cons.prems(3) obtain s1 where d: "app_dispatch src ev s = Done s1"
    and r: "app_exec src evs s1 = Some s'"
    by (cases "app_dispatch src ev s") simp_all
  from Cons.prems(1,2) d have "vm_rel s1 (vm_step src ev v)" by (rule rel_dispatch)
  from this Cons.prems(2) r have "vm_rel s' (vm_run src evs (vm_step src ev v))" by (rule Cons.IH)
  then show ?case by simp
qed

lemma app_exec_run: "app_exec src evs s = Some s' \<Longrightarrow> app_run src evs s = s'"
proof (induction evs arbitrary: s)
  case (Cons ev evs)
  then show ?case by (cases "app_dispatch src ev s") simp_all
qed simp

subsection \<open>Refinement\<close>

text \<open>
  C18. Every run of the orchestrator from mount in which no fetch rejects, on a source
  whose cursors are positive page numbers, is a run of the specification's view
  model: after the same events, the displayed list, the visibility of "View More" and
  the filter's options are those of the abstract model, the displayed list in
  unfiltered mode being the concatenation of all pages fetched so far in fetch order.
\<close>

theorem app_refines_view_model:
  assumes "positive_cursors src" and "app_exec src evs app_init = Some s"
  shows "vm_rel s (vm_run src evs vm_init)
         \<and> transactions s = vm_displayed (vm_run src evs vm_init)
         \<and> shouldShowViewMore s = vm_canLoadMore (vm_run src evs vm_init)
         \<and> select_items s = vm_filterOptions (vm_run src evs vm_init)"
proof -
  have "vm_rel s (vm_run src evs vm_init)"
    using vm_rel_init assms(1,2) by (rule rel_exec)
  with vm_rel_observe show ?thesis by blast
qed

theorem app_refines_view_model_witness:
  "\<exists>s. app_exec scenario_source
         [Effect, ClickViewMore, SelectEmployee (Some ann_lee), SelectEmployee (Some EMPTY_EMPLOYEE)]
         app_init = Some s
     \<and> transactions s = Some [1, 2, 3] \<and> \<not> shouldShowViewMore s
     \<and> select_items s = [EMPTY_EMPLOYEE, ann_lee]"
proof -
  let ?evs = "[Effect, ClickViewMore, SelectEmployee (Some ann_lee), SelectEmployee (Some EMPTY_EMPLOYEE)]"
  have pos: "positive_cursors scenario_source"
    by (simp add: positive_cursors_def scenario_source_def split: option.splits)
  have "\<exists>s. app_exec scenario_source ?evs app_init = Some s"
    by (simp add: app_unfolds scenario_source_def ann_lee_def EMPTY_EMPLOYEE_def)
  then obtain s where s: "app_exec scenario_source ?evs app_init = Some s" by blast
  have v: "vm_displayed (vm_run scenario_source ?evs vm_init) = Some [1, 2, 3]"
    "\<not> vm_canLoadMore (vm_run scenario_source ?evs vm_init)"
    "vm_filterOptions (vm_run scenario_source ?evs vm_init) = [EMPTY_EMPLOYEE, ann_lee]"
    by (simp_all add: vm_init_def vm_initialLoad_def vm_selectEmployee_def vm_loadMore_def
          vm_canLoadMore_def vm_displayed_def vm_filterOptions_def scenario_source_def
          ann_lee_def EMPTY_EMPLOYEE_def)
  from app_refines_view_model [OF pos s] v s show ?thesis by auto
qed

end
