(* ===== verification/Spec2Isabelle.thy ===== *)
theory Spec2Isabelle
  imports Liveness Effect InputCheckbox ViewModel
begin

text \<open>
  \<^bold>\<open>Verification of the employee-transaction viewer.\<close>

  \<^emph>\<open>The program.\<close> \<open>src/App.tsx\<close> is a React root component that reconciles three
  remote data sources (the employee list, a cursor-paginated feed of all transactions,
  the transactions of one employee) into one displayed list. It owns three state cells
  (\<open>isLoading\<close>, \<open>employeeId\<close>, \<open>allTransactions\<close>), reads the state of three data
  hooks, derives the displayed list in a \<open>useMemo\<close>, and reacts to three events: the
  mount effect, a choice in the employee select (\<open>handleEmployeeChange\<close>), and a click
  on "View More" (\<open>loadMoreTransactions\<close>). \<open>src/components/InputCheckbox/index.tsx\<close>
  is a controlled checkbox. The hooks, the types and constants, the select and the
  mock transport are outside \<open>src/\<close>; they are modelled from the specification.

  \<^emph>\<open>Theories.\<close>
  \<^item> \<open>Prelude\<close>: the error kind \<open>FetchError\<close>, fetch results \<open>fetch_error + 'a\<close>, the
    outcome of an async handler (\<open>Done s\<close> or \<open>Raised e s\<close>, keeping the state the
    setters already wrote), \<open>then_do\<close> for \<open>await\<close>, \<open>settle\<close>, JavaScript truthiness.
  \<^item> \<open>Source\<close>: \<open>employee\<close>, \<open>EMPTY_EMPLOYEE\<close> (id \<open>""\<close>), \<open>page\<close> (data and a
    nullable page-number cursor), the remote source as a record of three fallible
    queries, \<open>page_chain\<close> (following cursors as repeated "View More" clicks do, one
    fetch per unit of fuel), the specification's scenario source and its variants,
    and a mock source over a list with a page size, with the lemma that its pages
    concatenate back to the list and its cursor chain ends.
  \<^item> \<open>Hooks\<close>: a hook's state (\<open>data\<close>, \<open>loading\<close>) and its fetch split into the
    request (\<open>hook_start\<close>) and the answer (\<open>hook_resolve\<close>); \<open>page_cursor\<close>, the
    cursor \<open>usePaginatedTransactions\<close> requests.
  \<^item> \<open>App\<close>: the state record \<open>app_state\<close> (the three hooks and the three cells), the
    render (\<open>transactions\<close> for lines 20-25, \<open>shouldShowViewMore\<close> line 83, the select
    and button props lines 93-116), the handlers \<open>loadAllTransactions\<close> (28-35),
    \<open>loadTransactionsByEmployee\<close> (38-46), \<open>mountEffect\<close> (48-52),
    \<open>handleEmployeeChange\<close> (55-63), \<open>loadMoreTransactions\<close> (66-80), the events
    \<open>ui_event\<close> and their delivery \<open>app_dispatch\<close> (the JSX wiring 92-118), and runs
    \<open>app_run\<close>. Each handler runs to completion, as the specification assumes; a
    handler's closure reads the render it was created in, its setters write the
    current state in statement order, and a rejected \<open>await\<close> ends it with \<open>Raised\<close>.
  \<^item> \<open>Async\<close>: the same handlers with each \<open>await\<close> as a suspension point. A
    system state \<open>sys\<close> is the app state, the pending requests (\<open>task\<close>: which
    continuation waits and what it keeps from its closure: the cursor, the captured
    page, the employee id) and a ghost list of the pages delivered. \<open>start_event\<close>
    runs a handler up to its first \<open>await\<close>, \<open>respond\<close> delivers one answer and runs
    the continuation up to the next; \<open>async_step\<close> picks any event or any pending
    answer (answers arrive in any order), and \<open>async_reach\<close> is the set of states
    reachable from mount. Its flag says whether clicks reach "View More" only while the
    button is enabled (the code in a browser, which delivers no click to a disabled
    button) or also while it is disabled (an over-approximation, under which C19 still
    holds). \<open>exec_actions\<close> replays a concrete interleaving.
  \<^item> \<open>Liveness\<close>: progress of the interleaved semantics: the invariant
    \<open>idle_inv\<close> (a loading flag is set only while a request that clears it is
    pending, \<open>isLoading\<close> only while some request is), preserved by every start and,
    on a source whose fetches succeed (\<open>reliable\<close>), by every answer; and the
    termination of \<open>drain\<close> by a weight on the pending requests.
  \<^item> \<open>Effect\<close>: when the mount effect runs. React runs it after a render whose
    dependencies (\<open>effect_deps\<close>: \<open>employees\<close>, \<open>employeesLoading\<close>,
    \<open>transactionsLoading\<close>, and \<open>loadAllTransactions\<close>, whose identity follows the first
    two) changed; \<open>commit\<close> renders after each step of the interleaved system and fires
    the effect, \<open>react_step\<close> and \<open>react_reach\<close> are the rendered runs from mount.
  \<^item> \<open>ViewModel\<close>: the specification's abstract view model (sections 3 and 4.1):
    the pages fetched in order, the filter, the scoped cache and the employees, the
    derived \<open>displayedTransactions\<close>, \<open>canLoadMore\<close> and \<open>filterOptions\<close>, and the
    actions \<open>initialLoad\<close>, \<open>selectEmployee\<close>, \<open>loadMoreTransactions\<close> with the
    specification's failure semantics (a failed fetch changes nothing). \<open>vm_rel\<close>
    relates a quiescent state of \<open>App\<close> to an abstract state (\<open>allTransactions\<close> is the
    data of all pages but the last, the paginated hook holds the last); one simulation
    lemma per handler, for runs whose fetches all answer (\<open>app_exec\<close>).
  \<^item> \<open>InputCheckbox\<close>: props, the rendered label and input, \<open>handleChange\<close>, and the
    click as the DOM delivers it.

  \<^emph>\<open>Properties.\<close> C1-C2: "View More" merges each fetched page exactly once, in
  fetch order (one click; \<open>n\<close> clicks following the cursor chain). C3-C7: the
  initial load, its idempotence, the employee filter, clearing it, and the absence of
  "View More" while filtered. C8-C9: every state reached from mount satisfies the
  invariant \<open>app_inv\<close>, and the unfiltered list never shrinks. C10-C12: error and
  edge paths the code gets wrong or the specification does not cover (a failed
  "View More" leaves \<open>isLoading\<close> set; a failed first page is never retried; a page
  number 0 as cursor shows an inert button). C13: end to end on the mock source,
  mounting and clicking until the pages run out displays exactly the transaction
  list. C14-C15: the checkbox. C16-C17: with the button's guard, under every
  interleaving of events and answers at most one page request is in flight and the
  list is exactly the delivered pages in order (invariant \<open>async_inv\<close>, by rule
  induction over \<open>async_reach\<close>, one lemma per start and one per answer); the
  interleavings include choices in the select while a fetch is in flight, which only
  strengthens these two. C18: every run of the handlers from mount whose fetches all
  answer is a run of the specification's view model, on a source whose cursors are
  positive page numbers (a zero cursor is the divergence of C12; a rejected fetch
  leaves the partial writes of C10-C11, outside the abstract model). C19: on a source
  whose fetches succeed, from every reachable interleaved state the pending requests
  are all answered and the screen returns to idle. C20: when the employee list cannot
  be fetched, the effect re-fires after every failed answer and requests it again,
  forever, with \<open>isLoading\<close> set (the specification forbids automatic retries).

  \<^emph>\<open>Fuel and bounds.\<close> \<open>page_chain\<close> spends one unit of fuel per fetch, as one click
  spends one request; C2 is stated for any \<open>n\<close> with the chain answering, and C13
  shows that the page count of the mock minus one is exactly enough.

  \<^emph>\<open>Not modelled.\<close> Styling and layout, \<open>Instructions\<close> and \<open>Transactions\<close>
  (presentational), the build. The select's own behaviour while \<open>isLoading\<close> is not
  known from the sources; it is treated as always accepting a choice.

  \<^emph>\<open>Fuel in the interleaved model.\<close> \<open>drain\<close> answers pending requests in arrival
  order with fuel; two units per pending request suffice (C19, by a weight that every
  answer decreases): the answer to the employee request issues one further request,
  no other answer issues any.

  \<^emph>\<open>Plan for later work.\<close> The abstract model's error outcome (surfacing
  \<open>FetchError\<close>) against the code's partial writes; the rendered semantics of theory
  \<open>Effect\<close> for the other handlers' dependence on the render they were created in.
\<close>

lemma mock_mount:
  "app_dispatch (mock_source es owner k xs) Effect app_init =
     Done (app_init\<lparr>employees_hook := \<lparr>hook_data = Some es, hook_loading = False\<rparr>,
                    paginated_hook := \<lparr>hook_data = Some (mock_page k xs 0), hook_loading = False\<rparr>\<rparr>)"
  by (simp add: app_unfolds)

text \<open>
  C13. On the mock source with a positive page size, the mount effect followed by one
  click on "View More" less than the number of pages displays exactly the whole
  transaction list, each item once and in order, and "View More" is then gone.
\<close>

theorem mock_source_end_to_end:
  assumes k: "0 < k"
  shows "transactions (app_run (mock_source es owner k xs)
            (Effect # replicate (mock_page_count k xs - 1) ClickViewMore) app_init) = Some xs
         \<and> \<not> shouldShowViewMore (app_run (mock_source es owner k xs)
            (Effect # replicate (mock_page_count k xs - 1) ClickViewMore) app_init)"
proof -
  let ?src = "mock_source es owner k xs"
  let ?p0 = "mock_page k xs 0"
  let ?s1 = "app_init\<lparr>employees_hook := \<lparr>hook_data = Some es, hook_loading = False\<rparr>,
                    paginated_hook := \<lparr>hook_data = Some ?p0, hook_loading = False\<rparr>\<rparr>"
  from mock_all_pages [OF k, of es owner] obtain ps where
    chain: "page_chain ?src (nextPage ?p0) (mock_page_count k xs - 1) = Some ps"
    and cat: "concat (map page_data (?p0 # ps)) = xs"
    and lst: "nextPage (last (?p0 # ps)) = None"
    by blast
  have "page_chain ?src (page_cursor (paginatedTransactions ?s1)) (mock_page_count k xs - 1) = Some ps"
    and "\<not> js_truthy_str (employeeId ?s1)" and "\<not> isLoading ?s1" and "\<not> transactionsLoading ?s1"
    using chain by (simp_all add: app_init_def)
  note run = view_more_run [OF this]
  let ?sN = "app_run ?src (replicate (mock_page_count k xs - 1) ClickViewMore) ?s1"
  have eq: "app_run ?src (Effect # replicate (mock_page_count k xs - 1) ClickViewMore) app_init = ?sN"
    by (simp only: app_run.simps mock_mount outcome_state.simps)
  have "merged ?s1 = page_data ?p0" by (simp add: merged_def app_init_def)
  with run cat have t: "transactions ?sN = Some xs" by simp
  from run have "paginatedTransactions ?sN = Some (last (?p0 # ps))" and "employeeId ?sN = None"
    by (simp_all add: app_init_def)
  with lst have "\<not> shouldShowViewMore ?sN" by (simp add: shouldShowViewMore_def)
  with t eq show ?thesis by simp
qed

theorem mock_source_end_to_end_witness:
  "transactions (app_run (mock_source [ann_lee] (\<lambda>t. ''1'') 2 [1::nat, 2, 3, 4, 5])
      (Effect # replicate (mock_page_count 2 [1::nat, 2, 3, 4, 5] - 1) ClickViewMore) app_init)
     = Some [1, 2, 3, 4, 5]
   \<and> \<not> shouldShowViewMore (app_run (mock_source [ann_lee] (\<lambda>t. ''1'') 2 [1::nat, 2, 3, 4, 5])
      (Effect # replicate (mock_page_count 2 [1::nat, 2, 3, 4, 5] - 1) ClickViewMore) app_init)"
  using mock_source_end_to_end [of 2 "[ann_lee]" "\<lambda>t. ''1''" "[1::nat, 2, 3, 4, 5]"] by simp

end
